theory Spec2Isabelle
  imports Main "HOL-Library.AList"
begin

section \<open>The PTY terminal server: a shallow embedding\<close>

text \<open>
  The server is one JavaScript file: a token codec (\<open>createToken\<close>, \<open>verifyToken\<close>), a
  working-directory check (\<open>safeJoin\<close>, \<open>getCwd\<close>), a session map with an idle sweep, a
  context relay and the WebSocket upgrade handler. Each source function becomes a HOL function of
  the same name. Module-level maps become fields of an explicit state; every read of
  \<open>Date.now()\<close> becomes an argument; a thrown exception becomes \<open>Inl\<close> of a sum.

  JavaScript strings are modelled as \<open>string\<close> (code units up to 255); session ids, which
  a request body can fill with any code units, are kept as code units. The integral numbers
  the code computes with (millisecond timestamps, TTLs) are modelled as \<open>int\<close>: the model is
  exact for the safe integers, of magnitude below \<open>2^53\<close>, where JavaScript's doubles are
  exact integers that print in plain decimal notation.
\<close>

subsection \<open>Library functions the code calls\<close>

datatype error = RangeError | TypeError | URIError | Error string

type_synonym buffer = "char list"

text \<open>
  Template-literal conversion of an integral number, \<open>`${exp}`\<close>: its decimal digits. This
  is what the code prints for a safe integer. A sum beyond the safe integers is rounded to a
  double, and from \<open>1e21\<close> a double prints in exponent notation (\<open>1e+21\<close>), which
  \<open>show_int\<close> does not follow; \<open>safe_integer\<close> is the bound under which the model's
  arithmetic and printed numbers are the code's.
\<close>

definition digit_char :: "nat \<Rightarrow> char" where
  "digit_char d = char_of (48 + d)"

function show_nat :: "nat \<Rightarrow> string" where
  "show_nat n = (if n < 10 then [digit_char n] else show_nat (n div 10) @ [digit_char (n mod 10)])"
  by pat_completeness auto
termination
  by (relation "measure id") auto

declare show_nat.simps [simp del]

definition show_int :: "int \<Rightarrow> string" where
  "show_int i = (if i < 0 then CHR ''-'' # show_nat (nat (- i)) else show_nat (nat i))"

definition safe_integer :: "int \<Rightarrow> bool" where
  "safe_integer i = (- (2 ^ 53) < i \<and> i < 2 ^ 53)"

text \<open>
  \<open>parseInt(s, 10)\<close>: skip leading white space, read an optional sign, then the longest run of
  decimal digits; \<open>NaN\<close> (here \<open>None\<close>) when that run is empty. Anything after the digits is
  ignored.
\<close>

definition is_space :: "char \<Rightarrow> bool" where
  "is_space c = (of_char c \<in> {9, 10, 11, 12, 13, 32, 160 :: nat})"

definition is_digit :: "char \<Rightarrow> bool" where
  "is_digit c = (48 \<le> (of_char c :: nat) \<and> (of_char c :: nat) \<le> 57)"

definition digit_val :: "char \<Rightarrow> nat" where
  "digit_val c = of_char c - 48"

fun digits_val :: "nat \<Rightarrow> string \<Rightarrow> nat" where
  "digits_val acc [] = acc"
| "digits_val acc (c # cs) = digits_val (10 * acc + digit_val c) cs"

definition parseInt :: "string \<Rightarrow> int option" where
  "parseInt s =
     (let t = dropWhile is_space s;
          neg = (case t of [] \<Rightarrow> False | c # _ \<Rightarrow> c = CHR ''-'');
          u = (case t of [] \<Rightarrow> [] | c # r \<Rightarrow> if c = CHR ''-'' \<or> c = CHR ''+'' then r else t);
          z = takeWhile is_digit u
      in if z = [] then None
         else Some (if neg then - int (digits_val 0 z) else int (digits_val 0 z)))"

text \<open>\<open>String.prototype.split\<close> with a one-character separator: never an empty array.\<close>

fun split :: "char \<Rightarrow> string \<Rightarrow> string list" where
  "split sep [] = [[]]"
| "split sep (c # cs) =
     (if c = sep then [] # split sep cs
      else (case split sep cs of [] \<Rightarrow> [[c]] | p # ps \<Rightarrow> (c # p) # ps))"

text \<open>
  Hexadecimal text. \<open>toHex\<close> is \<open>digest('hex')\<close> (two lower-case digits per byte).
  \<open>fromHex\<close> is \<open>Buffer.from(s, 'hex')\<close>: it decodes pairs of digits and stops, keeping what
  it has, at the first pair that is not two hex digits; a trailing single character is dropped.
\<close>

definition hex_digit :: "nat \<Rightarrow> char" where
  "hex_digit d = (if d < 10 then char_of (48 + d) else char_of (87 + d))"

definition hex_value :: "char \<Rightarrow> nat option" where
  "hex_value c =
     (let n = (of_char c :: nat) in
      if 48 \<le> n \<and> n \<le> 57 then Some (n - 48)
      else if 97 \<le> n \<and> n \<le> 102 then Some (n - 87)
      else if 65 \<le> n \<and> n \<le> 70 then Some (n - 55)
      else None)"

fun toHex :: "buffer \<Rightarrow> string" where
  "toHex [] = []"
| "toHex (b # bs) = hex_digit (of_char b div 16) # hex_digit (of_char b mod 16) # toHex bs"

fun fromHex :: "string \<Rightarrow> buffer" where
  "fromHex (a # b # r) =
     (case hex_value a of
        None \<Rightarrow> []
      | Some h \<Rightarrow> (case hex_value b of
                     None \<Rightarrow> []
                   | Some l \<Rightarrow> char_of (16 * h + l) # fromHex r))"
| "fromHex _ = []"

text \<open>
  \<open>crypto.timingSafeEqual(a, b)\<close> throws a \<open>RangeError\<close> when the two buffers differ in
  byte length, and otherwise says whether they are equal.
\<close>

definition timingSafeEqual :: "buffer \<Rightarrow> buffer \<Rightarrow> error + bool" where
  "timingSafeEqual a b = (if length a \<noteq> length b then Inl RangeError else Inr (a = b))"

subsection \<open>Configuration\<close>

record config =
  SIGN_SECRET :: string
  SESSION_TIMEOUT :: int
  TOKEN_TTL :: int
  ALLOWED_ROOT :: string

subsection \<open>Token codec\<close>

text \<open>
  The keyed digest \<open>crypto.createHmac('sha256', key).update(msg).digest()\<close> is a parameter
  \<open>H key msg\<close> of the codec: its 32 result bytes are all the code uses of it.
\<close>

type_synonym hmac = "string \<Rightarrow> string \<Rightarrow> buffer"

text \<open>
  The values a query parameter of \<open>url.parse(request.url, true).query\<close> can have: missing,
  a string, or an array of strings when the parameter is repeated. \<open>falsy\<close> is JavaScript's
  \<open>!v\<close>; \<open>text_of\<close> is the conversion a template literal applies.
\<close>

datatype jsval = Undefined | Str string | Arr "string list"

definition falsy :: "jsval \<Rightarrow> bool" where
  "falsy v = (v = Undefined \<or> v = Str [])"

fun join :: "string \<Rightarrow> string list \<Rightarrow> string" where
  "join sep [] = []"
| "join sep [x] = x"
| "join sep (x # y # zs) = x @ sep @ join sep (y # zs)"

fun text_of :: "jsval \<Rightarrow> string" where
  "text_of Undefined = ''undefined''"
| "text_of (Str s) = s"
| "text_of (Arr xs) = join '','' xs"

text \<open>
  \<open>createToken\<close> adds the TTL to the clock reading and writes the sum, as text, into the
  signed payload and into the token. The sum and its text are the code's when the clock
  reading, the TTL and the sum are safe integers.
\<close>

definition payload :: "string \<Rightarrow> int \<Rightarrow> string" where
  "payload sid exp = ''pty:'' @ sid @ ''|'' @ show_int exp"

definition createToken :: "hmac \<Rightarrow> config \<Rightarrow> int \<Rightarrow> string \<Rightarrow> string" where
  "createToken H cfg now sid =
     (let exp = now + TOKEN_TTL cfg;
          signature = toHex (H (SIGN_SECRET cfg) (payload sid exp))
      in show_int exp @ ''.'' @ signature)"

text \<open>
  \<open>verifyToken\<close> is called with the query values as they are. An array has no \<open>split\<close>
  method, so an array token raises a \<open>TypeError\<close>.
\<close>

definition verifyToken :: "hmac \<Rightarrow> config \<Rightarrow> int \<Rightarrow> jsval \<Rightarrow> jsval \<Rightarrow> error + bool" where
  "verifyToken H cfg now sid token =
     (if falsy token \<or> falsy sid then Inr False
      else case token of
        Undefined \<Rightarrow> Inr False
      | Arr _ \<Rightarrow> Inl TypeError
      | Str t \<Rightarrow>
          (case split CHR ''.'' t of
             [expStr, signature] \<Rightarrow>
               (case parseInt expStr of
                  None \<Rightarrow> Inr False
                | Some exp \<Rightarrow>
                    if exp < now then Inr False
                    else let expectedSignature =
                               toHex (H (SIGN_SECRET cfg) (payload (text_of sid) exp))
                         in timingSafeEqual (fromHex signature) (fromHex expectedSignature))
           | _ \<Rightarrow> Inr False))"

text \<open>
  A fixed 32-byte stand-in for the keyed digest, used only to run the definitions on concrete
  inputs. Every general statement below holds for an arbitrary \<open>H\<close>.
\<close>

definition sample_hmac :: hmac where
  "sample_hmac key msg = take 32 (msg @ key @ replicate 32 (CHR 0x00))"

definition sample_config :: config where
  "sample_config = \<lparr>SIGN_SECRET = ''dev-secret-change-in-production'', SESSION_TIMEOUT = 3600000,
     TOKEN_TTL = 900000, ALLOWED_ROOT = ''/home/user''\<rparr>"

subsection \<open>WebSocket upgrade\<close>

text \<open>
  The \<open>upgrade\<close> listener. Its outcome is what it does with the socket: write a 401 or a 403
  and destroy it, destroy it silently (any path but \<open>/pty\<close>), or hand it to
  \<open>wss.handleUpgrade\<close>, whose callback emits \<open>connection\<close> with the session id. An
  exception of \<open>verifyToken\<close> is not caught by the listener.
\<close>

datatype upgrade_outcome = Unauthorized401 | Forbidden403 | SocketDestroyed | HandleUpgrade jsval

definition on_upgrade ::
  "hmac \<Rightarrow> config \<Rightarrow> int \<Rightarrow> string \<Rightarrow> jsval \<Rightarrow> jsval \<Rightarrow> error + upgrade_outcome" where
  "on_upgrade H cfg now pathname sid token =
     (if pathname = ''/pty'' then
        (if falsy sid \<or> falsy token then Inr Unauthorized401
         else case verifyToken H cfg now sid token of
                Inl e \<Rightarrow> Inl e
              | Inr ok \<Rightarrow> if \<not> ok then Inr Forbidden403 else Inr (HandleUpgrade sid))
      else Inr SocketDestroyed)"

subsection \<open>Working directory\<close>

text \<open>
  \<open>path.resolve\<close> on a POSIX host, for the two ways the code calls it. It prepends arguments
  from the right (skipping empty ones) until one is absolute, falling back on the process's
  working directory, and then normalises: empty and \<open>.\<close> segments are dropped, \<open>..\<close>
  removes the segment before it and is dropped at the root, and there is no trailing slash.
\<close>

record os_env =
  platform_win32 :: bool
  env_USERPROFILE :: "string option"
  env_HOME :: "string option"
  env_SHELL :: "string option"
  env_COMSPEC :: "string option"
  os_homedir :: string
  process_cwd :: string

fun build_path :: "string list \<Rightarrow> string \<Rightarrow> string \<times> bool" where
  "build_path [] acc = (acc, False)"
| "build_path (p # ps) acc =
     (if p = [] then build_path ps acc
      else if hd p = CHR ''/'' then (p @ ''/'' @ acc, True)
      else build_path ps (p @ ''/'' @ acc))"

fun normalize_segments :: "bool \<Rightarrow> string list \<Rightarrow> string list \<Rightarrow> string list" where
  "normalize_segments allowAboveRoot [] st = rev st"
| "normalize_segments allowAboveRoot (s # ss) st =
     (if s = [] \<or> s = ''.'' then normalize_segments allowAboveRoot ss st
      else if s = ''..'' then
        (case st of
           [] \<Rightarrow> normalize_segments allowAboveRoot ss (if allowAboveRoot then [''..''] else [])
         | t # ts \<Rightarrow>
             if allowAboveRoot \<and> t = ''..'' then normalize_segments allowAboveRoot ss (''..'' # st)
             else normalize_segments allowAboveRoot ss ts)
      else normalize_segments allowAboveRoot ss (s # st))"

definition path_resolve :: "os_env \<Rightarrow> string list \<Rightarrow> string" where
  "path_resolve env args =
     (let (resolvedPath, resolvedAbsolute) = build_path (rev args @ [process_cwd env]) [];
          normalized = join ''/'' (normalize_segments (\<not> resolvedAbsolute)
                                     (split CHR ''/'' resolvedPath) [])
      in if resolvedAbsolute then CHR ''/'' # normalized
         else if normalized = [] then ''.'' else normalized)"

definition startsWith :: "string \<Rightarrow> string \<Rightarrow> bool" where
  "startsWith s p = (take (length p) s = p)"

definition safeJoin :: "os_env \<Rightarrow> string \<Rightarrow> string \<Rightarrow> error + string" where
  "safeJoin env root userPath =
     (let resolved = path_resolve env [root, userPath]
      in if \<not> startsWith resolved (path_resolve env [root])
         then Inl (Error ''Path traversal detected'')
         else Inr resolved)"

text \<open>
  \<open>getCwd\<close> of a string-valued (or missing) \<open>cwd\<close>; the result is \<open>None\<close> where the code
  returns \<open>undefined\<close> (an unset \<open>USERPROFILE\<close>).
\<close>

definition or_else :: "string option \<Rightarrow> string \<Rightarrow> string" where
  "or_else v d = (case v of None \<Rightarrow> d | Some s \<Rightarrow> if s = [] then d else s)"

definition getCwd :: "os_env \<Rightarrow> config \<Rightarrow> string option \<Rightarrow> string option" where
  "getCwd env cfg requestedCwd =
     (case (case requestedCwd of None \<Rightarrow> [] | Some r \<Rightarrow> r) of
        [] \<Rightarrow>
          (if platform_win32 env then env_USERPROFILE env
           else Some (or_else (env_HOME env) (os_homedir env)))
      | c # r \<Rightarrow>
          (case safeJoin env (ALLOWED_ROOT cfg) (c # r) of
             Inr p \<Rightarrow> Some p
           | Inl e \<Rightarrow> Some (os_homedir env)))"

definition getShell :: "os_env \<Rightarrow> string" where
  "getShell env =
     (if platform_win32 env then or_else (env_COMSPEC env) ''powershell.exe''
      else or_else (env_SHELL env) ''/bin/sh'')"

text \<open>
  What the spec calls staying inside the allowed root: the path is the root directory itself or
  lies below it. This is the reference the check of \<open>safeJoin\<close> is compared with.
\<close>

definition inside_root :: "string \<Rightarrow> string \<Rightarrow> bool" where
  "inside_root root p = (p = root \<or> startsWith p (if root = ''/'' then root else root @ ''/''))"

definition sample_env :: os_env where
  "sample_env = \<lparr>platform_win32 = False, env_USERPROFILE = None, env_HOME = Some ''/home/user'',
     env_SHELL = Some ''/bin/bash'', env_COMSPEC = None, os_homedir = ''/home/user'',
     process_cwd = ''/srv/terminal-server''\<rparr>"

subsection \<open>Sessions\<close>

text \<open>
  The \<open>sessions\<close> map keeps insertion order, so it is an association list with distinct keys
  (\<open>AList.update\<close> is \<open>Map.set\<close>, \<open>AList.delete\<close> is \<open>Map.delete\<close>). A PTY process is
  the index of its \<open>pty.spawn\<close> call; a WebSocket is a number. What the code does to the world
  outside the map is recorded in the state: the spawn calls that returned a process, the
  processes that were sent \<open>kill()\<close>, each socket's \<open>readyState\<close> and the frames sent.

  A session id can come from the JSON body of a start request, and a JSON string is any
  sequence of 16-bit code units: it need not be well-formed UTF-16 (a body can give, as an
  escape, the single code unit \<open>D800\<close>, a surrogate with no partner). The keys of the map are
  therefore sequences of code units. \<open>units\<close> gives the code units of a \<open>string\<close>, and
  \<open>latin1\<close> goes back for the ids whose code units are all below 256.
\<close>

type_synonym utf16 = "nat list"

definition units :: "string \<Rightarrow> utf16" where
  "units s = map of_char s"

definition latin1 :: "utf16 \<Rightarrow> string option" where
  "latin1 u = (if list_all (\<lambda>x. x < 256) u then Some (map char_of u) else None)"

datatype ready_state = CONNECTING | OPEN | CLOSING | CLOSED

datatype frame = Connected | Data string | ErrorFrame string

record session =
  pty :: nat
  clients :: "nat list"
  lastSeen :: int
  name :: string

record spawn_call =
  spawn_shell :: string
  spawn_name :: string
  spawn_cols :: nat
  spawn_rows :: nat
  spawn_cwd :: "string option"

record server =
  sessions :: "(utf16 \<times> session) list"
  spawned :: "spawn_call list"
  killed :: "nat list"
  readyState :: "nat \<Rightarrow> ready_state"
  sent :: "(nat \<times> frame) list"

definition generateSid :: "buffer \<Rightarrow> utf16" where
  "generateSid randomBytes = units (toHex randomBytes)"

text \<open>
  \<open>createSession\<close>. Whether \<open>pty.spawn\<close> returns a process or throws is up to the host, so
  it is a parameter: \<open>pty_spawn call\<close> is \<open>None\<close> when the call returns and the exception
  when it throws. The exception leaves \<open>createSession\<close> before \<open>sessions.set\<close>.
\<close>

definition createSession ::
  "(spawn_call \<Rightarrow> error option) \<Rightarrow> os_env \<Rightarrow> config \<Rightarrow> int \<Rightarrow> utf16 \<Rightarrow> string option
     \<Rightarrow> string option \<Rightarrow> server \<Rightarrow> error + (session \<times> server)" where
  "createSession pty_spawn env cfg now sid cwd nm st =
     (let shell = getShell env;
          workingDir = getCwd env cfg cwd;
          call = \<lparr>spawn_shell = shell, spawn_name = or_else nm ''xterm-color'', spawn_cols = 80,
                   spawn_rows = 24, spawn_cwd = workingDir\<rparr>
      in case pty_spawn call of
           Some e \<Rightarrow> Inl e
         | None \<Rightarrow>
             (let ptyProcess = length (spawned st);
                  s = \<lparr>pty = ptyProcess, clients = [], lastSeen = now,
                       name = or_else nm ''terminal''\<rparr>
              in Inr (s, st\<lparr>spawned := spawned st @ [call],
                              sessions := AList.update sid s (sessions st)\<rparr>)))"



text \<open>
  \<open>encodeURIComponent\<close> of a string whose code units are below 256: an unreserved character
  stands for itself, any other is escaped byte by byte in UTF-8.
\<close>

definition upper_hex_digit :: "nat \<Rightarrow> char" where
  "upper_hex_digit d = (if d < 10 then char_of (48 + d) else char_of (55 + d))"

definition percent :: "nat \<Rightarrow> string" where
  "percent b = [CHR ''%'', upper_hex_digit (b div 16), upper_hex_digit (b mod 16)]"

definition unreserved :: "char \<Rightarrow> bool" where
  "unreserved c =
     (let n = (of_char c :: nat) in
      (48 \<le> n \<and> n \<le> 57) \<or> (65 \<le> n \<and> n \<le> 90) \<or> (97 \<le> n \<and> n \<le> 122)
      \<or> c \<in> {CHR ''-'', CHR ''_'', CHR ''.'', CHR ''!'', CHR ''~'', CHR ''*'', CHR 0x27,
               CHR ''('', CHR '')''})"

fun encodeURIComponent :: "string \<Rightarrow> string" where
  "encodeURIComponent [] = []"
| "encodeURIComponent (c # cs) =
     (if unreserved c then [c]
      else if (of_char c :: nat) < 128 then percent (of_char c)
      else percent (192 + of_char c div 64) @ percent (128 + of_char c mod 64))
     @ encodeURIComponent cs"

text \<open>
  \<open>encodeURIComponent\<close> throws a \<open>URIError\<close> exactly when its argument has an unpaired
  surrogate: a code unit in \<open>DC00..DFFF\<close> that does not follow one in \<open>D800..DBFF\<close>, or a
  code unit in \<open>D800..DBFF\<close> that is not followed by one in \<open>DC00..DFFF\<close>.
\<close>

definition high_surrogate :: "nat \<Rightarrow> bool" where
  "high_surrogate x = (0xD800 \<le> x \<and> x \<le> 0xDBFF)"

definition low_surrogate :: "nat \<Rightarrow> bool" where
  "low_surrogate x = (0xDC00 \<le> x \<and> x \<le> 0xDFFF)"

fun lone_surrogate :: "utf16 \<Rightarrow> bool" where
  "lone_surrogate [] = False"
| "lone_surrogate [x] = (high_surrogate x \<or> low_surrogate x)"
| "lone_surrogate (x # y # r) =
     (if low_surrogate x then True
      else if high_surrogate x then (if low_surrogate y then lone_surrogate r else True)
      else lone_surrogate (y # r))"

text \<open>
  \<open>POST /api/pty/start\<close> with a body whose \<open>sid\<close>, \<open>cwd\<close> and \<open>name\<close> are strings or
  missing. \<open>t_seen\<close> and \<open>t_token\<close> are the two clock reads of the handler (the session's
  \<open>lastSeen\<close>, then \<open>createToken\<close>); \<open>randomBytes\<close> is what \<open>crypto.randomBytes(16)\<close>
  returns when it is called.

  The handler first creates or refreshes the session and only then builds the response, so an
  exception of the second step leaves the first step's effect in place. The outcome is either
  the JSON response or the exception that left the handler. \<open>createToken\<close> throws for no
  string; \<open>encodeURIComponent(sid)\<close> throws for an id with an unpaired surrogate. For an id
  that is well-formed and has a code unit from 256 up, the handler answers as for any other
  id, with the UTF-8 bytes of those characters escaped and signed; the model, whose digest
  takes a \<open>string\<close>, does not compute that answer (\<open>BeyondLatin1\<close>).
\<close>

record start_body =
  body_sid :: "utf16 option"
  body_cwd :: "string option"
  body_name :: "string option"

record start_response =
  res_sid :: string
  res_url :: string
  res_wsUrl :: string

datatype start_outcome = Responded start_response | Threw error | BeyondLatin1

definition start_json :: "bool \<Rightarrow> string \<Rightarrow> string \<Rightarrow> string \<Rightarrow> start_response" where
  "start_json secure host sid token =
     \<lparr>res_sid = sid,
      res_url = ''/terminal.html?sid='' @ encodeURIComponent sid @ ''&token=''
                  @ encodeURIComponent token,
      res_wsUrl = (if secure then ''wss'' else ''ws'') @ ''://'' @ host @ ''/pty?sid=''
                  @ encodeURIComponent sid @ ''&token='' @ encodeURIComponent token\<rparr>"

definition start_respond ::
  "hmac \<Rightarrow> config \<Rightarrow> int \<Rightarrow> bool \<Rightarrow> string \<Rightarrow> utf16 \<Rightarrow> start_outcome" where
  "start_respond H cfg t_token secure host sid =
     (case latin1 sid of
        Some k \<Rightarrow> Responded (start_json secure host k (createToken H cfg t_token k))
      | None \<Rightarrow> if lone_surrogate sid then Threw URIError else BeyondLatin1)"

definition pty_start ::
  "hmac \<Rightarrow> (spawn_call \<Rightarrow> error option) \<Rightarrow> os_env \<Rightarrow> config \<Rightarrow> buffer \<Rightarrow> int \<Rightarrow> int \<Rightarrow> bool
     \<Rightarrow> string \<Rightarrow> start_body \<Rightarrow> server \<Rightarrow> server \<times> start_outcome" where
  "pty_start H pty_spawn env cfg randomBytes t_seen t_token secure host body st =
     (let requestedSid = (case body_sid body of None \<Rightarrow> [] | Some u \<Rightarrow> u);
          found = (if requestedSid = [] then None else map_of (sessions st) requestedSid)
      in case found of
           None \<Rightarrow>
             (let sid = (if requestedSid = [] then generateSid randomBytes else requestedSid)
              in case createSession pty_spawn env cfg t_seen sid (body_cwd body)
                        (body_name body) st of
                   Inl e \<Rightarrow> (st, Threw e)
                 | Inr (s, st') \<Rightarrow> (st', start_respond H cfg t_token secure host sid))
         | Some s \<Rightarrow>
             (st\<lparr>sessions := AList.update requestedSid (s\<lparr>lastSeen := t_seen\<rparr>) (sessions st)\<rparr>,
              start_respond H cfg t_token secure host requestedSid))"

text \<open>The session id a start request resolves to: \<open>sid || generateSid()\<close>.\<close>

definition resolved_sid :: "buffer \<Rightarrow> start_body \<Rightarrow> utf16" where
  "resolved_sid randomBytes body =
     (case body_sid body of
        None \<Rightarrow> generateSid randomBytes
      | Some u \<Rightarrow> if u = [] then generateSid randomBytes else u)"

text \<open>
  \<open>DELETE /api/pty/close\<close>, the route that ends a session on request. Before it kills the
  process and deletes the entry it closes every client of the session that is open. The
  session id is a query value; the map's keys are strings, so an array finds nothing.
\<close>

datatype close_response = SidRequired400 | SessionNotFound404 | Success

fun close_clients :: "nat list \<Rightarrow> server \<Rightarrow> server" where
  "close_clients [] st = st"
| "close_clients (client # rest) st =
     close_clients rest
       (if readyState st client = OPEN
        then st\<lparr>readyState := (readyState st)(client := CLOSING)\<rparr>
        else st)"

definition pty_close :: "jsval \<Rightarrow> server \<Rightarrow> server \<times> close_response" where
  "pty_close sid st =
     (if falsy sid then (st, SidRequired400)
      else case (case sid of Str k \<Rightarrow> map_of (sessions st) (units k) | _ \<Rightarrow> None) of
             None \<Rightarrow> (st, SessionNotFound404)
           | Some s \<Rightarrow>
               (let st' = close_clients (clients s) st
                in (st'\<lparr>killed := killed st' @ [pty s],
                        sessions := AList.delete (units (text_of sid)) (sessions st')\<rparr>,
                    Success)))"



text \<open>A server with an idle session that still has an open client, and a recent session.\<close>

definition sample_server :: server where
  "sample_server =
     \<lparr>sessions =
        [(units ''board-1'', \<lparr>pty = 0, clients = [7], lastSeen = 0, name = ''terminal''\<rparr>),
         (units ''board-2'', \<lparr>pty = 1, clients = [], lastSeen = 3000000, name = ''frontend''\<rparr>)],
      spawned =
        [\<lparr>spawn_shell = ''/bin/bash'', spawn_name = ''xterm-color'', spawn_cols = 80,
          spawn_rows = 24, spawn_cwd = Some ''/home/user''\<rparr>,
         \<lparr>spawn_shell = ''/bin/bash'', spawn_name = ''frontend'', spawn_cols = 80,
          spawn_rows = 24, spawn_cwd = Some ''/home/user/app''\<rparr>],
      killed = [],
      readyState = (\<lambda>ws. CLOSED)(7 := OPEN),
      sent = []\<rparr>"

text \<open>
  Two start requests: one for the existing session \<open>board-2\<close>, and one whose \<open>sid\<close> is the
  single code unit \<open>D800\<close>.
\<close>

definition sample_body :: start_body where
  "sample_body =
     \<lparr>body_sid = Some (units ''board-2''), body_cwd = Some ''/tmp'', body_name = Some ''x''\<rparr>"

definition surrogate_body :: start_body where
  "surrogate_body = \<lparr>body_sid = Some [0xD800], body_cwd = None, body_name = None\<rparr>"

subsection \<open>Context relay\<close>

text \<open>
  Request bodies are JSON as \<open>express.json()\<close> parses it. A JavaScript number is finite,
  \<open>NaN\<close> or an infinity (\<open>1e999\<close> parses to \<open>Infinity\<close>); a finite double is
  \<open>m * 2 ^ e\<close> for integers \<open>m\<close> and \<open>e\<close>, written \<open>Num m e\<close>. An object is the list
  of its members, each key once, read with \<open>map_of\<close>; a missing member reads as
  \<open>undefined\<close>, here \<open>None\<close>.
\<close>

datatype number = Num int int | NaN | PosInfinity | NegInfinity

datatype json =
  JNull | JBool bool | JNumber number | JString string | JArray "json list"
  | JObject "(string \<times> json) list"

definition field :: "json option \<Rightarrow> string \<Rightarrow> json option" where
  "field v k = (case v of Some (JObject kvs) \<Rightarrow> map_of kvs k | _ \<Rightarrow> None)"

fun truthy :: "json option \<Rightarrow> bool" where
  "truthy None = False"
| "truthy (Some JNull) = False"
| "truthy (Some (JBool b)) = b"
| "truthy (Some (JNumber n)) = (case n of Num m e \<Rightarrow> m \<noteq> 0 | NaN \<Rightarrow> False | _ \<Rightarrow> True)"
| "truthy (Some (JString s)) = (s \<noteq> [])"
| "truthy (Some (JArray xs)) = True"
| "truthy (Some (JObject kvs)) = True"

fun typeof_object :: "json option \<Rightarrow> bool" where
  "typeof_object (Some JNull) = True"
| "typeof_object (Some (JArray xs)) = True"
| "typeof_object (Some (JObject kvs)) = True"
| "typeof_object _ = False"

fun isArray :: "json option \<Rightarrow> bool" where
  "isArray (Some (JArray xs)) = True"
| "isArray _ = False"

fun isFinite :: "json option \<Rightarrow> bool" where
  "isFinite (Some (JNumber (Num m e))) = True"
| "isFinite _ = False"

record viewport =
  vp_x :: "json option"
  vp_y :: "json option"
  vp_width :: "json option"
  vp_height :: "json option"

record context_record =
  docs :: "json list"
  viewport :: "viewport option"
  updatedAt :: int

record relay =
  contextStore :: "string \<rightharpoonup> context_record"
  contextRequestTimes :: "(string \<times> int) list"

datatype response =
  Status400 string
  | PushOk nat
  | ContextJson "json list" "viewport option" "int option"
  | EmbedIds "string list"
  | RequestOk
  | OtherRoute
  | Status404

definition CONTEXT_REQUEST_TTL_MS :: int where
  "CONTEXT_REQUEST_TTL_MS = 30000"

definition viewportData :: "json option \<Rightarrow> viewport option" where
  "viewportData v =
     (if truthy v \<and> typeof_object v \<and> isFinite (field v ''x'') \<and> isFinite (field v ''y'')
         \<and> isFinite (field v ''width'') \<and> isFinite (field v ''height'')
      then Some \<lparr>vp_x = field v ''x'', vp_y = field v ''y'', vp_width = field v ''width'',
                 vp_height = field v ''height''\<rparr>
      else None)"

text \<open>\<open>POST /api/context/:embedId\<close>.\<close>

definition context_push :: "int \<Rightarrow> string \<Rightarrow> json \<Rightarrow> relay \<Rightarrow> relay \<times> response" where
  "context_push now embedId body st =
     (case field (Some body) ''docs'' of
        Some (JArray ds) \<Rightarrow>
          (st\<lparr>contextStore := (contextStore st)(embedId \<mapsto>
                 \<lparr>docs = ds, viewport = viewportData (field (Some body) ''viewport''),
                  updatedAt = now\<rparr>)\<rparr>,
           PushOk (length ds))
      | _ \<Rightarrow> (st, Status400 ''docs must be an array''))"

text \<open>
  \<open>GET /api/context/requests\<close>: the loop over \<open>contextRequestTimes.entries()\<close>, which
  collects the fresh ids and deletes the expired entries from the map it iterates.
\<close>

fun requests_loop ::
  "int \<Rightarrow> (string \<times> int) list \<Rightarrow> string list \<Rightarrow> (string \<times> int) list
     \<Rightarrow> string list \<times> (string \<times> int) list" where
  "requests_loop now [] embedIds pending = (embedIds, pending)"
| "requests_loop now ((embedId, at) # rest) embedIds pending =
     (if now - at < CONTEXT_REQUEST_TTL_MS
      then requests_loop now rest (embedIds @ [embedId]) pending
      else requests_loop now rest embedIds (AList.delete embedId pending))"

definition context_requests :: "int \<Rightarrow> relay \<Rightarrow> relay \<times> response" where
  "context_requests now st =
     (let (embedIds, pending) =
            requests_loop now (contextRequestTimes st) [] (contextRequestTimes st)
      in (st\<lparr>contextRequestTimes := pending\<rparr>, EmbedIds embedIds))"

text \<open>\<open>GET /api/context/:embedId\<close>.\<close>

definition context_get :: "string \<Rightarrow> relay \<Rightarrow> relay \<times> response" where
  "context_get embedId st =
     (case contextStore st embedId of
        None \<Rightarrow> (st, ContextJson [] None None)
      | Some ctx \<Rightarrow> (st, ContextJson (docs ctx) (viewport ctx) (Some (updatedAt ctx))))"

text \<open>\<open>POST /api/context/:embedId/request\<close>.\<close>

definition context_request :: "int \<Rightarrow> string \<Rightarrow> relay \<Rightarrow> relay \<times> response" where
  "context_request now embedId st =
     (st\<lparr>contextRequestTimes := AList.update embedId now (contextRequestTimes st)\<rparr>, RequestOk)"

subsection \<open>Routing\<close>

text \<open>
  Express tries the routes in the order the file registers them. A route's path is matched
  against the request's raw path name: literal segments without regard to letter case, a
  \<open>:param\<close> against one non-empty segment, one trailing slash allowed. A matched parameter is
  then decoded with \<open>decodeURIComponent\<close> (a malformed escape ends the request with status
  400), and only then is the route's method compared. The middleware before the routes (CORS
  headers, the JSON body parser, static files that do not exist under these paths) passes the
  request on.

  \<open>decodeURIComponent\<close> is modelled for escapes of ASCII characters, which is all the
  statements below use. An escape of a byte from \<open>0x80\<close> on belongs to a UTF-8 sequence, which
  may decode to a character that \<open>string\<close> cannot hold: the model stops there with
  \<open>NonAscii\<close>, and the router with \<open>Unmodelled\<close>.
\<close>

datatype http_method = GET | POST | DELETE

datatype handler =
  PtyStart | PtyClose | ContextPush | ContextRequests | ContextGet | ContextRequest | Health

datatype segment = Lit string | Param

datatype decoded = Decoded string | Malformed | NonAscii

fun decodeURIComponent :: "string \<Rightarrow> decoded" where
  "decodeURIComponent [] = Decoded []"
| "decodeURIComponent (c # cs) =
     (if c = CHR ''%'' then
        (case cs of
           a # b # r \<Rightarrow>
             (case (hex_value a, hex_value b) of
                (Some h, Some l) \<Rightarrow>
                  if 16 * h + l < 128 then
                    (case decodeURIComponent r of
                       Decoded s \<Rightarrow> Decoded (char_of (16 * h + l) # s)
                     | other \<Rightarrow> other)
                  else NonAscii
              | _ \<Rightarrow> Malformed)
         | _ \<Rightarrow> Malformed)
      else (case decodeURIComponent cs of
              Decoded s \<Rightarrow> Decoded (c # s)
            | other \<Rightarrow> other))"

definition lower :: "char \<Rightarrow> char" where
  "lower c =
     (if 65 \<le> (of_char c :: nat) \<and> (of_char c :: nat) \<le> 90 then char_of (of_char c + 32 :: nat)
      else c)"

fun match_segments :: "segment list \<Rightarrow> string list \<Rightarrow> string list option" where
  "match_segments [] [] = Some []"
| "match_segments (Lit l # ps) (s # ss) =
     (if map lower s = l then match_segments ps ss else None)"
| "match_segments (Param # ps) (s # ss) =
     (if s = [] then None
      else (case match_segments ps ss of None \<Rightarrow> None | Some vs \<Rightarrow> Some (s # vs)))"
| "match_segments _ _ = None"

datatype params = Params "string list" | BadEscape | BeyondAscii

fun decode_params :: "string list \<Rightarrow> params" where
  "decode_params [] = Params []"
| "decode_params (v # vs) =
     (case decodeURIComponent v of
        Decoded s \<Rightarrow> (case decode_params vs of Params ss \<Rightarrow> Params (s # ss) | other \<Rightarrow> other)
      | Malformed \<Rightarrow> BadEscape
      | NonAscii \<Rightarrow> BeyondAscii)"

definition path_segments :: "string \<Rightarrow> string list option" where
  "path_segments path =
     (case split CHR ''/'' path of
        [] # segs \<Rightarrow> Some (if segs \<noteq> [] \<and> last segs = [] then butlast segs else segs)
      | _ \<Rightarrow> None)"

definition routes :: "(http_method \<times> segment list \<times> handler) list" where
  "routes =
     [(POST, [Lit ''api'', Lit ''pty'', Lit ''start''], PtyStart),
      (DELETE, [Lit ''api'', Lit ''pty'', Lit ''close''], PtyClose),
      (POST, [Lit ''api'', Lit ''context'', Param], ContextPush),
      (GET, [Lit ''api'', Lit ''context'', Lit ''requests''], ContextRequests),
      (GET, [Lit ''api'', Lit ''context'', Param], ContextGet),
      (POST, [Lit ''api'', Lit ''context'', Param, Lit ''request''], ContextRequest),
      (GET, [Lit ''health''], Health)]"

datatype routed = Matched handler "string list" | BadParam | NoRoute | Unmodelled

fun route_loop ::
  "(http_method \<times> segment list \<times> handler) list \<Rightarrow> http_method \<Rightarrow> string list \<Rightarrow> routed" where
  "route_loop [] m segs = NoRoute"
| "route_loop ((rm, pat, h) # rest) m segs =
     (case match_segments pat segs of
        None \<Rightarrow> route_loop rest m segs
      | Some raw \<Rightarrow>
          (case decode_params raw of
             BadEscape \<Rightarrow> BadParam
           | BeyondAscii \<Rightarrow> Unmodelled
           | Params ps \<Rightarrow> if rm = m then Matched h ps else route_loop rest m segs))"

definition route :: "http_method \<Rightarrow> string \<Rightarrow> routed" where
  "route m path =
     (case path_segments path of None \<Rightarrow> NoRoute | Some segs \<Rightarrow> route_loop routes m segs)"

text \<open>A request to the context endpoints, from the router to the handler's response.\<close>

definition context_api :: "int \<Rightarrow> http_method \<Rightarrow> string \<Rightarrow> json \<Rightarrow> relay \<Rightarrow> relay \<times> response" where
  "context_api now m path body st =
     (case route m path of
        Matched ContextPush [embedId] \<Rightarrow> context_push now embedId body st
      | Matched ContextRequests [] \<Rightarrow> context_requests now st
      | Matched ContextGet [embedId] \<Rightarrow> context_get embedId st
      | Matched ContextRequest [embedId] \<Rightarrow> context_request now embedId st
      | Matched h ps \<Rightarrow> (st, OtherRoute)
      | BadParam \<Rightarrow> (st, Status400 ''Failed to decode param'')
      | NoRoute \<Rightarrow> (st, Status404)
      | Unmodelled \<Rightarrow> (st, OtherRoute))"

definition empty_relay :: relay where
  "empty_relay = \<lparr>contextStore = Map.empty, contextRequestTimes = []\<rparr>"

text \<open>Two pending requests, recorded at 1000 and at 30000; and a push of one document.\<close>

definition sample_relay :: relay where
  "sample_relay =
     \<lparr>contextStore = Map.empty,
      contextRequestTimes = [(''e1'', 1000), (''e2'', 30000)]\<rparr>"

definition sample_docs :: json where
  "sample_docs = JObject [(''docs'', JArray [JString ''doc-1''])]"

text \<open>The push of the spec's example: no docs, and a viewport whose width is \<open>NaN\<close>.\<close>

definition sample_push :: json where
  "sample_push =
     JObject [(''docs'', JArray []),
              (''viewport'', JObject [(''x'', JNumber (Num 1 0)), (''y'', JNumber (Num 1 1)),
                                      (''width'', JNumber NaN), (''height'', JNumber (Num 1 2))])]"

subsection \<open>Facts about the library functions\<close>

lemma digits_val_snoc: "digits_val acc (cs @ [c]) = 10 * digits_val acc cs + digit_val c"
  by (induction cs arbitrary: acc) auto

lemma is_digit_digit_char: "d < 10 \<Longrightarrow> is_digit (digit_char d)"
  by (simp add: is_digit_def digit_char_def)

lemma digit_val_digit_char: "d < 10 \<Longrightarrow> digit_val (digit_char d) = d"
  by (simp add: digit_val_def digit_char_def)

lemma show_nat_digits: "\<forall>c \<in> set (show_nat n). is_digit c"
proof (induction n rule: show_nat.induct)
  case (1 n)
  show ?case
  proof (cases "n < 10")
    case True
    then show ?thesis by (simp add: show_nat.simps [of n] is_digit_digit_char)
  next
    case False
    with 1 show ?thesis by (simp add: show_nat.simps [of n] is_digit_digit_char)
  qed
qed

lemma show_nat_nonempty: "show_nat n \<noteq> []"
  by (subst show_nat.simps) simp

lemma digits_val_show_nat: "digits_val 0 (show_nat n) = n"
proof (induction n rule: show_nat.induct)
  case (1 n)
  show ?case
  proof (cases "n < 10")
    case True
    then show ?thesis by (simp add: show_nat.simps [of n] digit_val_digit_char)
  next
    case False
    with 1 show ?thesis
      by (simp add: show_nat.simps [of n] digits_val_snoc digit_val_digit_char)
  qed
qed

lemma is_digit_not_space: "is_digit c \<Longrightarrow> \<not> is_space c"
  by (auto simp: is_digit_def is_space_def)

lemma is_digit_not_sign: "is_digit c \<Longrightarrow> c \<noteq> CHR ''-'' \<and> c \<noteq> CHR ''+'' \<and> c \<noteq> CHR ''.''"
  by (auto simp: is_digit_def)

lemma parseInt_show_nat: "parseInt (show_nat n) = Some (int n)"
proof -
  obtain c cs where s: "show_nat n = c # cs"
    using show_nat_nonempty [of n] by (cases "show_nat n") auto
  have d: "\<forall>x \<in> set (c # cs). is_digit x"
    using show_nat_digits [of n] s by simp
  then have c: "is_digit c" by simp
  have tw: "takeWhile is_digit (c # cs) = c # cs"
    using d by (metis takeWhile_eq_all_conv)
  have v: "digits_val 0 (c # cs) = n"
    using digits_val_show_nat [of n] s by simp
  show ?thesis
    unfolding parseInt_def s Let_def
    using is_digit_not_space [OF c] is_digit_not_sign [OF c] tw v
    by simp
qed

lemma parseInt_minus_show_nat: "parseInt (CHR ''-'' # show_nat n) = Some (- int n)"
proof -
  have d: "\<forall>x \<in> set (show_nat n). is_digit x"
    using show_nat_digits [of n] by simp
  have tw: "takeWhile is_digit (show_nat n) = show_nat n"
    using d by (metis takeWhile_eq_all_conv)
  have sp: "\<not> is_space CHR ''-''" by (simp add: is_space_def)
  show ?thesis
    unfolding parseInt_def Let_def
    using sp show_nat_nonempty [of n] digits_val_show_nat [of n]
    by (simp add: tw)
qed

lemma parseInt_show_int: "parseInt (show_int i) = Some i"
  by (simp add: show_int_def parseInt_show_nat parseInt_minus_show_nat)

lemma split_none: "sep \<notin> set s \<Longrightarrow> split sep s = [s]"
  by (induction s) auto

lemma split_once: "sep \<notin> set a \<Longrightarrow> sep \<notin> set b \<Longrightarrow> split sep (a @ sep # b) = [a, b]"
  by (induction a) (auto simp: split_none)

lemma of_char_hex_digit:
  "d < 16 \<Longrightarrow> (of_char (hex_digit d) :: nat) = (if d < 10 then 48 + d else 87 + d)"
  by (simp add: hex_digit_def)

lemma hex_value_hex_digit: "d < 16 \<Longrightarrow> hex_value (hex_digit d) = Some d"
  by (simp add: hex_value_def of_char_hex_digit Let_def)

lemma nibbles: "of_char b div 16 < (16::nat)" "of_char b mod 16 < (16::nat)"
  using nat_of_char_less_256 [of b] by (simp_all add: less_mult_imp_div_less)

lemma fromHex_toHex: "fromHex (toHex bs) = bs"
  by (induction bs) (simp_all add: hex_value_hex_digit nibbles)

lemma hex_digit_not_dot: "d < 16 \<Longrightarrow> hex_digit d \<noteq> CHR ''.''"
proof
  assume d: "d < 16" and "hex_digit d = CHR ''.''"
  then have "(of_char (hex_digit d) :: nat) = of_char CHR ''.''" by simp
  with d show False by (simp add: of_char_hex_digit split: if_splits)
qed

lemma toHex_no_dot: "CHR ''.'' \<notin> set (toHex bs)"
  using hex_digit_not_dot nibbles by (induction bs) (simp_all add: eq_commute [of "CHR ''.''"])

lemma show_int_no_dot: "CHR ''.'' \<notin> set (show_int i)"
proof
  assume "CHR ''.'' \<in> set (show_int i)"
  then have "CHR ''.'' \<in> set (show_nat (nat (- i))) \<or> CHR ''.'' \<in> set (show_nat (nat i))"
    by (simp add: show_int_def split: if_splits)
  then have "is_digit CHR ''.''" using show_nat_digits by blast
  then show False by (simp add: is_digit_def)
qed

lemma split_token:
  "split CHR ''.'' (show_int e @ ''.'' @ toHex bs) = [show_int e, toHex bs]"
  using split_once [OF show_int_no_dot toHex_no_dot] by simp

lemma show_int_nonempty: "show_int i \<noteq> []"
  by (simp add: show_int_def show_nat_nonempty)


lemma show_int_example: "show_int 9999999999999 = ''9999999999999''"
  by (simp add: show_int_def show_nat.simps digit_char_def char_of_eq_iff)

lemma length_sample_hmac: "length (sample_hmac k m) = 32"
  by (simp add: sample_hmac_def)

subsection \<open>Token codec: verification of issued tokens\<close>

lemma verify_own_token:
  "sid \<noteq> [] \<Longrightarrow>
   verifyToken H cfg now (Str sid) (Str (createToken H cfg issued sid))
     = Inr (now \<le> issued + TOKEN_TTL cfg)"
  using split_token [of "issued + TOKEN_TTL cfg"
      "H (SIGN_SECRET cfg) (payload sid (issued + TOKEN_TTL cfg))"]
  by (simp add: verifyToken_def createToken_def falsy_def Let_def parseInt_show_int
      show_int_nonempty timingSafeEqual_def)

lemma verify_length_mismatch:
  assumes "sid \<noteq> []" and "now \<le> e" and "CHR ''.'' \<notin> set sg"
    and "length (fromHex sg) \<noteq> length (H (SIGN_SECRET cfg) (payload sid e))"
  shows "verifyToken H cfg now (Str sid) (Str (show_int e @ ''.'' @ sg)) = Inl RangeError"
proof -
  have sp: "split CHR ''.'' (show_int e @ ''.'' @ sg) = [show_int e, sg]"
    using split_once [OF show_int_no_dot assms(3)] by simp
  show ?thesis
    using assms(1,2,4) sp
    by (simp add: verifyToken_def falsy_def parseInt_show_int show_int_nonempty
        timingSafeEqual_def fromHex_toHex)
qed

text \<open>
  C1, as the code has it. The guard of \<open>verifyToken\<close> is \<open>exp < Date.now()\<close>, so a token
  issued at \<open>issued\<close> for a non-empty session id verifies at every time up to and including its
  expiry \<open>issued + TOKEN_TTL\<close>, and is refused at every later time. (The start route never
  issues a token for the empty id, which \<open>verifyToken\<close> refuses outright.) The statement is
  for clock readings, a TTL and an expiry that are safe integers: there the sum
  \<open>Date.now() + TOKEN_TTL\<close> is exact and the expiry is written into the token, and read back
  from it, as its decimal digits.
\<close>

theorem token_roundtrip_until_expiry:
  assumes "sid \<noteq> []"
    and "safe_integer issued" and "safe_integer (TOKEN_TTL cfg)"
    and "safe_integer (issued + TOKEN_TTL cfg)" and "safe_integer now"
  shows "(now \<le> issued + TOKEN_TTL cfg \<longrightarrow>
            verifyToken H cfg now (Str sid) (Str (createToken H cfg issued sid)) = Inr True)
       \<and> (issued + TOKEN_TTL cfg < now \<longrightarrow>
            verifyToken H cfg now (Str sid) (Str (createToken H cfg issued sid)) = Inr False)"
  using verify_own_token [OF assms(1), of H cfg now issued] by simp

theorem token_roundtrip_until_expiry_witness:
  "verifyToken sample_hmac sample_config 1700000000001 (Str ''board-1'')
     (Str (createToken sample_hmac sample_config 1700000000000 ''board-1'')) = Inr True
   \<and> verifyToken sample_hmac sample_config 1700000900001 (Str ''board-1'')
     (Str (createToken sample_hmac sample_config 1700000000000 ''board-1'')) = Inr False"
  using token_roundtrip_until_expiry [of "''board-1''" 1700000000000 sample_config
      1700000000001 sample_hmac]
    token_roundtrip_until_expiry [of "''board-1''" 1700000000000 sample_config
      1700000900001 sample_hmac]
  by (simp add: sample_config_def safe_integer_def)

text \<open>
  The claim as stated fails at the expiry instant itself: with a TTL of 900000 ms, the token
  issued at 1700000000000 still verifies when the clock reads exactly 1700000900000. It also
  fails for the empty session id, whose token is refused even at the moment it is issued.
\<close>

theorem token_valid_at_expiry_instant:
  "verifyToken sample_hmac sample_config (1700000000000 + TOKEN_TTL sample_config)
     (Str ''board-1'') (Str (createToken sample_hmac sample_config 1700000000000 ''board-1''))
   = Inr True
 \<and> verifyToken sample_hmac sample_config 1700000000000
     (Str []) (Str (createToken sample_hmac sample_config 1700000000000 [])) = Inr False"
  using verify_own_token [of "''board-1''" sample_hmac sample_config
      "1700000000000 + TOKEN_TTL sample_config" 1700000000000]
  by (simp add: verifyToken_def falsy_def)

text \<open>
  C3. \<open>verifyToken\<close> is not total: when the signature field decodes to a number of bytes other
  than the digest's, \<open>crypto.timingSafeEqual\<close> throws. This holds for every unexpired
  \<open>expiry.signature\<close> token whose signature field has the wrong decoded length, for example
  \<open>9999999999999.00\<close> (one byte instead of 32).
\<close>

theorem verifyToken_throws_on_signature_length:
  assumes "sid \<noteq> []" and "now \<le> e" and "CHR ''.'' \<notin> set sg"
    and "length (fromHex sg) \<noteq> length (H (SIGN_SECRET cfg) (payload sid e))"
  shows "verifyToken H cfg now (Str sid) (Str (show_int e @ ''.'' @ sg)) = Inl RangeError"
  using assms by (rule verify_length_mismatch)

theorem verifyToken_throws_on_signature_length_witness:
  "verifyToken sample_hmac sample_config 1700000000000 (Str ''abc'') (Str ''9999999999999.00'')
   = Inl RangeError"
  using verifyToken_throws_on_signature_length [of "''abc''" 1700000000000 9999999999999 "''00''"
      sample_hmac sample_config]
  by (simp add: show_int_example length_sample_hmac hex_value_def)



subsection \<open>WebSocket upgrade: authorization before the upgrade\<close>

lemma verify_empty_sid: "verifyToken H cfg now (Str []) token = Inr False"
  by (simp add: verifyToken_def falsy_def)

lemma verify_array_token: "\<not> falsy sid \<Longrightarrow> verifyToken H cfg now sid (Arr xs) = Inl TypeError"
  by (simp add: verifyToken_def falsy_def)

text \<open>
  C2, as the code has it. On \<open>/pty\<close>, a missing or empty \<open>sid\<close> or \<open>token\<close> is answered
  with 401; when both are non-empty and \<open>verifyToken\<close> returns false the answer is 403; and on
  any path the socket is handed to \<open>handleUpgrade\<close> (the only way to the \<open>connection\<close>
  listener) only when \<open>verifyToken\<close> returned true, with the session id it was checked
  against. Nothing is said here about a \<open>verifyToken\<close> that throws.
\<close>

theorem upgrade_authorization:
  "(falsy sid \<or> falsy token \<longrightarrow> on_upgrade H cfg now ''/pty'' sid token = Inr Unauthorized401)
 \<and> (\<not> falsy sid \<and> \<not> falsy token \<and> verifyToken H cfg now sid token = Inr False \<longrightarrow>
        on_upgrade H cfg now ''/pty'' sid token = Inr Forbidden403)
 \<and> (on_upgrade H cfg now pathname sid token = Inr (HandleUpgrade s) \<longrightarrow>
        pathname = ''/pty'' \<and> s = sid \<and> verifyToken H cfg now sid token = Inr True)"
  by (auto simp: on_upgrade_def split: sum.splits if_splits)

lemma verify_sample_expired:
  "verifyToken sample_hmac sample_config 1700000000000 (Str ''abc'') (Str ''1.00'') = Inr False"
  by (simp add: verifyToken_def falsy_def parseInt_def is_space_def is_digit_def digit_val_def)

lemma upgrade_sample_valid:
  "on_upgrade sample_hmac sample_config 1700000000001 ''/pty'' (Str ''board-1'')
     (Str (createToken sample_hmac sample_config 1700000000000 ''board-1''))
   = Inr (HandleUpgrade (Str ''board-1''))"
  using verify_own_token [of "''board-1''" sample_hmac sample_config 1700000000001 1700000000000]
  by (simp add: on_upgrade_def falsy_def sample_config_def createToken_def Let_def)

theorem upgrade_authorization_witness:
  "on_upgrade sample_hmac sample_config 1700000000000 ''/pty'' (Str ''abc'') Undefined
     = Inr Unauthorized401
 \<and> on_upgrade sample_hmac sample_config 1700000000000 ''/pty'' (Str ''abc'') (Str ''1.00'')
     = Inr Forbidden403
 \<and> verifyToken sample_hmac sample_config 1700000000001 (Str ''board-1'')
       (Str (createToken sample_hmac sample_config 1700000000000 ''board-1'')) = Inr True"
  using upgrade_authorization [of "Str ''abc''" Undefined sample_hmac sample_config 1700000000000]
    upgrade_authorization [of "Str ''abc''" "Str ''1.00''" sample_hmac sample_config 1700000000000]
    upgrade_authorization [of "Str ''board-1''"
      "Str (createToken sample_hmac sample_config 1700000000000 ''board-1'')"
      sample_hmac sample_config 1700000000001 "''/pty''" "Str ''board-1''"]
    verify_sample_expired upgrade_sample_valid
  by (simp add: falsy_def)

text \<open>
  The claim as stated fails in two places. An empty \<open>sid\<close> is present, and its verification
  fails, yet the answer is 401, not 403. And a token whose signature field has the wrong length
  is a failed verification that is answered with neither: the exception of \<open>verifyToken\<close>
  leaves the listener.
\<close>

theorem upgrade_not_always_403:
  "Str [] \<noteq> Undefined \<and> Str ''x'' \<noteq> Undefined
 \<and> verifyToken sample_hmac sample_config 1700000000000 (Str []) (Str ''x'') = Inr False
 \<and> on_upgrade sample_hmac sample_config 1700000000000 ''/pty'' (Str []) (Str ''x'')
     = Inr Unauthorized401
 \<and> on_upgrade sample_hmac sample_config 1700000000000 ''/pty'' (Str ''abc'')
       (Str ''9999999999999.00'') = Inl RangeError"
  using verify_length_mismatch [of "''abc''" 1700000000000 9999999999999 "''00''"
      sample_hmac sample_config]
  by (simp add: on_upgrade_def falsy_def verify_empty_sid show_int_example length_sample_hmac
      hex_value_def)

subsection \<open>Working directory: the prefix check\<close>

lemma resolve_sibling:
  "path_resolve sample_env [''/home/user'', ''../username''] = ''/home/username''"
  by (simp add: path_resolve_def sample_env_def)

lemma resolve_root: "path_resolve sample_env [''/home/user''] = ''/home/user''"
  by (simp add: path_resolve_def sample_env_def)

lemma getCwd_rejects_parent:
  "getCwd sample_env sample_config (Some ''../../etc'') = Some ''/home/user''"
  by (simp add: getCwd_def safeJoin_def path_resolve_def sample_config_def startsWith_def
      sample_env_def)

text \<open>
  C4. With the allowed root \<open>/home/user\<close>, the requested directory \<open>../username\<close> resolves
  to \<open>/home/username\<close>, a sibling of the root that is not inside it. \<open>safeJoin\<close> compares
  strings with \<open>startsWith\<close>, the sibling's path begins with the root's, and \<open>getCwd\<close>
  returns the sibling instead of the home directory.
\<close>

theorem getCwd_accepts_sibling_of_root:
  "getCwd sample_env sample_config (Some ''../username'') = Some ''/home/username''
 \<and> \<not> inside_root (path_resolve sample_env [ALLOWED_ROOT sample_config]) ''/home/username''
 \<and> os_homedir sample_env = ''/home/user''"
  by (simp add: getCwd_def safeJoin_def resolve_sibling resolve_root sample_config_def
      startsWith_def inside_root_def) (simp add: sample_env_def)

subsection \<open>Sessions: the idle sweep\<close>

lemma delete_filter: "AList.delete k xs = filter (\<lambda>p. fst p \<noteq> k) xs"
  by (induction xs) auto

lemma distinct_keys_filter:
  assumes "distinct (map fst es)"
  shows "filter (\<lambda>p. fst p \<notin> fst ` {e \<in> set es. P (snd e)}) es = filter (\<lambda>p. \<not> P (snd p)) es"
proof (rule filter_cong [OF refl])
  fix p assume p: "p \<in> set es"
  show "(fst p \<notin> fst ` {e \<in> set es. P (snd e)}) = (\<not> P (snd p))"
  proof
    assume "fst p \<notin> fst ` {e \<in> set es. P (snd e)}"
    with p show "\<not> P (snd p)" by auto
  next
    assume np: "\<not> P (snd p)"
    show "fst p \<notin> fst ` {e \<in> set es. P (snd e)}"
    proof
      assume "fst p \<in> fst ` {e \<in> set es. P (snd e)}"
      then obtain q where q: "q \<in> set es" "P (snd q)" "fst q = fst p" by auto
      have "(fst p, snd p) \<in> set es" "(fst p, snd q) \<in> set es"
        using p q by (simp_all add: prod_eq_iff) (metis prod.collapse)
      with assms have "snd p = snd q" by (rule eq_key_imp_eq_value)
      with np q show False by simp
    qed
  qed
qed

lemma map_of_filter_distinct:
  assumes "distinct (map fst es)" and "map_of es k = Some v"
  shows "map_of (filter (\<lambda>p. Q (snd p)) es) k = (if Q v then Some v else None)"
  using assms
proof (induction es)
  case Nil
  then show ?case by simp
next
  case (Cons e es)
  obtain a b where e: "e = (a, b)" by (cases e)
  show ?case
  proof (cases "a = k")
    case True
    with Cons.prems e have v: "b = v" by simp
    have "k \<notin> fst ` set es" using Cons.prems(1) e True by auto
    then have "k \<notin> fst ` set (filter (\<lambda>p. Q (snd p)) es)" by auto
    then have "map_of (filter (\<lambda>p. Q (snd p)) es) k = None"
      by (simp add: map_of_eq_None_iff)
    then show ?thesis using e True v by simp
  next
    case False
    with Cons e show ?thesis by simp
  qed
qed

lemma map_of_filter_absent:
  "map_of es k = None \<Longrightarrow> map_of (filter Q es) k = None"
  by (auto simp: map_of_eq_None_iff)






lemma sample_server_board1:
  "map_of (sessions sample_server) (units ''board-1'')
     = Some \<lparr>pty = 0, clients = [7], lastSeen = 0, name = ''terminal''\<rparr>"
  by (simp add: sample_server_def)

lemma sample_server_board2:
  "map_of (sessions sample_server) (units ''board-2'')
     = Some \<lparr>pty = 1, clients = [], lastSeen = 3000000, name = ''frontend''\<rparr>"
  by (simp add: sample_server_def units_def)


text \<open>
  The close route ends a session with the same two steps, \<open>kill()\<close> and \<open>delete\<close>, and
  closes every open client of the session before them. On the server above it closes
  socket 7, which the sweep leaves open.
\<close>

lemma close_clients_readyState:
  "readyState (close_clients cs st) c =
     (if c \<in> set cs \<and> readyState st c = OPEN then CLOSING else readyState st c)"
  by (induction cs arbitrary: st) auto

lemma close_clients_frame:
  "sessions (close_clients cs st) = sessions st \<and> killed (close_clients cs st) = killed st
 \<and> sent (close_clients cs st) = sent st \<and> spawned (close_clients cs st) = spawned st"
  by (induction cs arbitrary: st) auto

lemma pty_close_closes_clients:
  assumes "k \<noteq> []" and "map_of (sessions st) (units k) = Some s"
  shows "snd (pty_close (Str k) st) = Success"
    and "c \<in> set (clients s) \<Longrightarrow> readyState (fst (pty_close (Str k) st)) c \<noteq> OPEN"
    and "killed (fst (pty_close (Str k) st)) = killed st @ [pty s]"
    and "sessions (fst (pty_close (Str k) st)) = AList.delete (units k) (sessions st)"
  using assms
  by (simp_all add: pty_close_def falsy_def Let_def close_clients_readyState close_clients_frame)

lemma pty_close_sample:
  "readyState (fst (pty_close (Str ''board-1'') sample_server)) 7 = CLOSING
 \<and> killed (fst (pty_close (Str ''board-1'') sample_server)) = [0]
 \<and> map_of (sessions (fst (pty_close (Str ''board-1'') sample_server))) (units ''board-1'') = None"
  using sample_server_board1
  by (simp add: pty_close_def falsy_def Let_def close_clients_readyState close_clients_frame
      delete_filter)
    (simp add: sample_server_def units_def)

subsection \<open>Sessions: start or attach\<close>

lemma encode_unreserved: "\<forall>c \<in> set s. unreserved c \<Longrightarrow> encodeURIComponent s = s"
  by (induction s) auto

lemma unreserved_digit: "is_digit c \<Longrightarrow> unreserved c"
  by (simp add: is_digit_def unreserved_def Let_def)

lemma unreserved_hex_digit: "d < 16 \<Longrightarrow> unreserved (hex_digit d)"
  by (simp add: unreserved_def Let_def of_char_hex_digit)

lemma unreserved_show_int: "\<forall>c \<in> set (show_int i). unreserved c"
  using show_nat_digits unreserved_digit
  by (auto simp: show_int_def unreserved_def Let_def)

lemma unreserved_toHex: "\<forall>c \<in> set (toHex bs). unreserved c"
  by (induction bs) (simp_all add: unreserved_hex_digit nibbles)

lemma encode_token: "encodeURIComponent (createToken H cfg now sid) = createToken H cfg now sid"
proof (rule encode_unreserved)
  have "unreserved CHR ''.''" by (simp add: unreserved_def)
  then show "\<forall>c \<in> set (createToken H cfg now sid). unreserved c"
    using unreserved_show_int unreserved_toHex by (auto simp: createToken_def Let_def)
qed

lemma latin1_units: "latin1 (units k) = Some k"
  by (simp add: latin1_def units_def list_all_iff map_idI)

lemma latin1_Some: "latin1 u = Some k \<Longrightarrow> u = units k"
  by (auto simp: latin1_def units_def list_all_iff map_idI split: if_splits)

lemma units_empty: "units k = [] \<longleftrightarrow> k = []"
  by (simp add: units_def)

lemma lone_surrogate_not_latin1: "lone_surrogate u \<Longrightarrow> latin1 u = None"
  by (induction u rule: lone_surrogate.induct)
    (auto simp: latin1_def high_surrogate_def low_surrogate_def split: if_splits)

lemma lone_surrogate_nonempty: "lone_surrogate u \<Longrightarrow> u \<noteq> []"
  by auto

lemma start_respond_lone:
  "lone_surrogate u \<Longrightarrow> start_respond H cfg t secure host u = Threw URIError"
  by (simp add: start_respond_def lone_surrogate_not_latin1)

lemma start_respond_latin1:
  "latin1 u = Some k \<Longrightarrow>
   start_respond H cfg t secure host u
     = Responded (start_json secure host k (createToken H cfg t k))"
  by (simp add: start_respond_def)

lemma start_reuse:
  assumes "body_sid body = Some sid" and "sid \<noteq> []" and "map_of (sessions st) sid = Some s"
  shows "pty_start H pty_spawn env cfg rnd t_seen t_token secure host body st =
     (st\<lparr>sessions := AList.update sid (s\<lparr>lastSeen := t_seen\<rparr>) (sessions st)\<rparr>,
      start_respond H cfg t_token secure host sid)"
  using assms by (simp add: pty_start_def Let_def)

lemma start_new:
  assumes "body_sid body = None \<or> body_sid body = Some []
             \<or> map_of (sessions st) (resolved_sid rnd body) = None"
  shows "pty_start H pty_spawn env cfg rnd t_seen t_token secure host body st =
     (case createSession pty_spawn env cfg t_seen (resolved_sid rnd body) (body_cwd body)
             (body_name body) st of
        Inl e \<Rightarrow> (st, Threw e)
      | Inr (s, st') \<Rightarrow> (st', start_respond H cfg t_token secure host (resolved_sid rnd body)))"
  using assms unfolding pty_start_def resolved_sid_def Let_def
  by (auto split: option.splits)

lemma createSession_Inr:
  assumes "createSession pty_spawn env cfg now sid cwd nm st = Inr (s, st')"
  shows "map_of (sessions st') sid = Some s" and "pty s = length (spawned st)"
    and "clients s = []" and "lastSeen s = now"
    and "length (spawned st') = Suc (length (spawned st))"
    and "killed st' = killed st" and "readyState st' = readyState st" and "sent st' = sent st"
  using assms
  by (auto simp: createSession_def Let_def update_conv' split: option.splits)

lemma start_json_token:
  "res_url (start_json secure host sid (createToken H cfg t sid))
     = ''/terminal.html?sid='' @ encodeURIComponent sid @ ''&token='' @ createToken H cfg t sid
 \<and> res_wsUrl (start_json secure host sid (createToken H cfg t sid))
     = (if secure then ''wss'' else ''ws'') @ ''://'' @ host @ ''/pty?sid=''
         @ encodeURIComponent sid @ ''&token='' @ createToken H cfg t sid
 \<and> res_sid (start_json secure host sid (createToken H cfg t sid)) = sid"
  by (simp add: start_json_def encode_token)

text \<open>
  The reuse frame. A start request whose \<open>sid\<close> names an existing session spawns nothing
  (\<open>pty.spawn\<close> is not called: the result is the same whatever it would do) and changes nothing
  but that session's \<open>lastSeen\<close>: the new state is the old one with that one field of that one
  entry refreshed, so the entry's process, clients and name, every other entry, the spawn
  calls, the kills, the sockets and the frames are as before; and \<open>cwd\<close> and \<open>name\<close> of the
  request have no effect.
\<close>

lemma start_reuses_existing_session:
  assumes "body_sid body = Some sid" and "sid \<noteq> []" and "map_of (sessions st) sid = Some s"
  shows "fst (pty_start H pty_spawn env cfg rnd t_seen t_token secure host body st)
        = st\<lparr>sessions := AList.update sid (s\<lparr>lastSeen := t_seen\<rparr>) (sessions st)\<rparr>"
    and "spawned (fst (pty_start H pty_spawn env cfg rnd t_seen t_token secure host body st))
        = spawned st"
    and "map_of (sessions (fst (pty_start H pty_spawn env cfg rnd t_seen t_token secure host
           body st))) sid
        = Some \<lparr>pty = pty s, clients = clients s, lastSeen = t_seen, name = name s\<rparr>"
    and "pty_start H other_spawn env cfg rnd t_seen t_token secure host
          (body\<lparr>body_cwd := other_cwd, body_name := other_name\<rparr>) st
        = pty_start H pty_spawn env cfg rnd t_seen t_token secure host body st"
    and "resolved_sid rnd body = sid"
proof -
  have b: "body_sid (body\<lparr>body_cwd := other_cwd, body_name := other_name\<rparr>) = Some sid"
    using assms(1) by simp
  have s: "s\<lparr>lastSeen := t_seen\<rparr>
             = \<lparr>pty = pty s, clients = clients s, lastSeen = t_seen, name = name s\<rparr>"
    by (cases s) simp
  note r = start_reuse [OF assms, of H pty_spawn env cfg rnd t_seen t_token secure host]
  show "fst (pty_start H pty_spawn env cfg rnd t_seen t_token secure host body st)
        = st\<lparr>sessions := AList.update sid (s\<lparr>lastSeen := t_seen\<rparr>) (sessions st)\<rparr>"
    by (simp add: r)
  show "spawned (fst (pty_start H pty_spawn env cfg rnd t_seen t_token secure host body st))
        = spawned st"
    by (simp add: r)
  show "map_of (sessions (fst (pty_start H pty_spawn env cfg rnd t_seen t_token secure host
           body st))) sid
        = Some \<lparr>pty = pty s, clients = clients s, lastSeen = t_seen, name = name s\<rparr>"
    using s by (simp add: r update_conv')
  show "pty_start H other_spawn env cfg rnd t_seen t_token secure host
          (body\<lparr>body_cwd := other_cwd, body_name := other_name\<rparr>) st
        = pty_start H pty_spawn env cfg rnd t_seen t_token secure host body st"
    using start_reuse [OF b assms(2,3), of H other_spawn env cfg rnd t_seen t_token secure host]
    by (simp add: r)
  show "resolved_sid rnd body = sid"
    using assms(1,2) by (simp add: resolved_sid_def)
qed

text \<open>
  The handler has two outcomes only: the answer built for the resolved session id, or the
  exception of a \<open>pty.spawn\<close> that threw, in which case nothing has changed.
\<close>

lemma start_outcome:
  "snd (pty_start H pty_spawn env cfg rnd t_seen t_token secure host body st)
     = start_respond H cfg t_token secure host (resolved_sid rnd body)
 \<or> (\<exists>call e. pty_spawn call = Some e
       \<and> pty_start H pty_spawn env cfg rnd t_seen t_token secure host body st = (st, Threw e))"
  by (auto simp: pty_start_def Let_def resolved_sid_def createSession_def
      split: option.splits)

lemma resolved_sid_nonempty: "rnd \<noteq> [] \<Longrightarrow> resolved_sid rnd body \<noteq> []"
  by (cases rnd) (auto simp: resolved_sid_def generateSid_def units_def split: option.splits)

text \<open>
  The token of the response. When \<open>pty.spawn\<close> returns and the resolved session id \<open>k\<close> has
  no code unit above 255, the handler answers with \<open>k\<close> and with a token, given verbatim in
  \<open>url\<close> and \<open>wsUrl\<close>, that \<open>verifyToken\<close> accepts for \<open>k\<close> at every time up to its
  expiry and at no later time.
\<close>

lemma start_issues_verifying_token:
  assumes "\<And>call. pty_spawn call = None" and "rnd \<noteq> []"
    and "latin1 (resolved_sid rnd body) = Some k"
    and "safe_integer t_token" and "safe_integer (TOKEN_TTL cfg)"
    and "safe_integer (t_token + TOKEN_TTL cfg)" and "safe_integer now"
  shows "snd (pty_start H pty_spawn env cfg rnd t_seen t_token secure host body st)
           = Responded
               \<lparr>res_sid = k,
                res_url = ''/terminal.html?sid='' @ encodeURIComponent k @ ''&token=''
                            @ createToken H cfg t_token k,
                res_wsUrl = (if secure then ''wss'' else ''ws'') @ ''://'' @ host @ ''/pty?sid=''
                              @ encodeURIComponent k @ ''&token='' @ createToken H cfg t_token k\<rparr>"
    and "verifyToken H cfg now (Str k) (Str (createToken H cfg t_token k))
           = Inr (now \<le> t_token + TOKEN_TTL cfg)"
proof -
  have "k \<noteq> []"
    using resolved_sid_nonempty [OF assms(2), of body] latin1_Some [OF assms(3)]
    by (auto simp: units_def)
  then show "verifyToken H cfg now (Str k) (Str (createToken H cfg t_token k))
           = Inr (now \<le> t_token + TOKEN_TTL cfg)"
    by (rule verify_own_token)
  have "snd (pty_start H pty_spawn env cfg rnd t_seen t_token secure host body st)
          = start_respond H cfg t_token secure host (resolved_sid rnd body)"
    using start_outcome [of H pty_spawn env cfg rnd t_seen t_token secure host body st]
      assms(1) by simp
  then show "snd (pty_start H pty_spawn env cfg rnd t_seen t_token secure host body st)
           = Responded
               \<lparr>res_sid = k,
                res_url = ''/terminal.html?sid='' @ encodeURIComponent k @ ''&token=''
                            @ createToken H cfg t_token k,
                res_wsUrl = (if secure then ''wss'' else ''ws'') @ ''://'' @ host @ ''/pty?sid=''
                              @ encodeURIComponent k @ ''&token='' @ createToken H cfg t_token k\<rparr>"
    by (simp add: start_respond_latin1 [OF assms(3)] start_json_def encode_token)
qed

text \<open>
  C7. A start request does not answer in all cases. When its \<open>sid\<close> has an unpaired
  surrogate, the handler reuses or creates the session as for any other id and then throws
  \<open>URIError\<close> from \<open>encodeURIComponent(sid)\<close>, so no response and no token leave the
  server: if a session with that id exists, its \<open>lastSeen\<close> is refreshed and the handler
  throws; if none exists and \<open>pty.spawn\<close> returns, the process is spawned and the session is
  stored under that id, and the handler throws.
\<close>

theorem start_throws_on_unpaired_surrogate:
  assumes "body_sid body = Some sid" and "lone_surrogate sid"
  shows "(map_of (sessions st) sid = Some s \<longrightarrow>
            pty_start H pty_spawn env cfg rnd t_seen t_token secure host body st
              = (st\<lparr>sessions := AList.update sid (s\<lparr>lastSeen := t_seen\<rparr>) (sessions st)\<rparr>,
                 Threw URIError))
       \<and> (map_of (sessions st) sid = None
            \<and> createSession pty_spawn env cfg t_seen sid (body_cwd body) (body_name body) st
                = Inr (s', st') \<longrightarrow>
            pty_start H pty_spawn env cfg rnd t_seen t_token secure host body st
              = (st', Threw URIError)
          \<and> map_of (sessions st') sid = Some s'
          \<and> pty s' = length (spawned st)
          \<and> length (spawned st') = Suc (length (spawned st)))"
proof -
  have ne: "sid \<noteq> []"
    using assms(2) by (rule lone_surrogate_nonempty)
  have res: "resolved_sid rnd body = sid"
    using assms(1) ne by (simp add: resolved_sid_def)
  have reuse: "map_of (sessions st) sid = Some s \<Longrightarrow>
      pty_start H pty_spawn env cfg rnd t_seen t_token secure host body st
        = (st\<lparr>sessions := AList.update sid (s\<lparr>lastSeen := t_seen\<rparr>) (sessions st)\<rparr>,
           Threw URIError)"
    using start_reuse [OF assms(1) ne, of st s H pty_spawn env cfg rnd t_seen t_token secure host]
    by (simp add: start_respond_lone [OF assms(2)])
  have new: "map_of (sessions st) sid = None \<Longrightarrow>
      createSession pty_spawn env cfg t_seen sid (body_cwd body) (body_name body) st
        = Inr (s', st') \<Longrightarrow>
      pty_start H pty_spawn env cfg rnd t_seen t_token secure host body st
        = (st', Threw URIError)"
    using start_new [of body st rnd H pty_spawn env cfg t_seen t_token secure host]
    by (simp add: res start_respond_lone [OF assms(2)])
  show ?thesis
    using reuse new
      createSession_Inr(1,2,5) [of pty_spawn env cfg t_seen sid "body_cwd body" "body_name body"
        st s' st']
    by blast
qed

lemma lone_sample: "lone_surrogate [0xD800]"
  by (simp add: high_surrogate_def)

lemma createSession_sample:
  "createSession (\<lambda>call. None) sample_env sample_config 3100000 [0xD800] None None sample_server
     = Inr (\<lparr>pty = 2, clients = [], lastSeen = 3100000, name = ''terminal''\<rparr>,
            sample_server
              \<lparr>spawned := spawned sample_server
                 @ [\<lparr>spawn_shell = ''/bin/bash'', spawn_name = ''xterm-color'', spawn_cols = 80,
                     spawn_rows = 24, spawn_cwd = Some ''/home/user''\<rparr>],
               sessions := sessions sample_server
                 @ [([0xD800], \<lparr>pty = 2, clients = [], lastSeen = 3100000,
                                name = ''terminal''\<rparr>)]\<rparr>)"
  by (simp add: createSession_def Let_def getShell_def getCwd_def or_else_def sample_env_def
      sample_server_def units_def)

theorem start_throws_on_unpaired_surrogate_witness:
  "pty_start sample_hmac (\<lambda>call. None) sample_env sample_config [] 3100000 3100001 False
     ''localhost:3001'' surrogate_body sample_server
   = (sample_server
        \<lparr>spawned := spawned sample_server
           @ [\<lparr>spawn_shell = ''/bin/bash'', spawn_name = ''xterm-color'', spawn_cols = 80,
               spawn_rows = 24, spawn_cwd = Some ''/home/user''\<rparr>],
         sessions := sessions sample_server
           @ [([0xD800], \<lparr>pty = 2, clients = [], lastSeen = 3100000, name = ''terminal''\<rparr>)]\<rparr>,
      Threw URIError)"
  using start_throws_on_unpaired_surrogate [of surrogate_body "[0xD800]" sample_server
      "\<lparr>pty = 2, clients = [], lastSeen = 3100000, name = ''terminal''\<rparr>"
      sample_hmac "\<lambda>call. None" sample_env sample_config "[]" 3100000 3100001 False
      "''localhost:3001''"
      "\<lparr>pty = 2, clients = [], lastSeen = 3100000, name = ''terminal''\<rparr>"
      "sample_server
        \<lparr>spawned := spawned sample_server
           @ [\<lparr>spawn_shell = ''/bin/bash'', spawn_name = ''xterm-color'', spawn_cols = 80,
               spawn_rows = 24, spawn_cwd = Some ''/home/user''\<rparr>],
         sessions := sessions sample_server
           @ [([0xD800], \<lparr>pty = 2, clients = [], lastSeen = 3100000, name = ''terminal''\<rparr>)]\<rparr>"]
    lone_sample createSession_sample
  by (simp add: surrogate_body_def) (simp add: sample_server_def units_def)

text \<open>
  The same server answers the request for the existing session \<open>board-2\<close>: nothing is
  spawned, the entry's \<open>lastSeen\<close> is refreshed, and the response carries a token for
  \<open>board-2\<close> that verifies.
\<close>

lemma encode_sample_sid: "encodeURIComponent ''board-2'' = ''board-2''"
  by (simp add: unreserved_def Let_def)

lemma start_sample_reuse:
  "pty_start sample_hmac (\<lambda>call. None) sample_env sample_config [] 3100000 3100001 False
     ''localhost:3001'' sample_body sample_server
   = (sample_server\<lparr>sessions := AList.update (units ''board-2'')
          \<lparr>pty = 1, clients = [], lastSeen = 3100000, name = ''frontend''\<rparr>
          (sessions sample_server)\<rparr>,
      Responded
        \<lparr>res_sid = ''board-2'',
         res_url = ''/terminal.html?sid=board-2&token=''
                     @ createToken sample_hmac sample_config 3100001 ''board-2'',
         res_wsUrl = ''ws://localhost:3001/pty?sid=board-2&token=''
                     @ createToken sample_hmac sample_config 3100001 ''board-2''\<rparr>)
 \<and> verifyToken sample_hmac sample_config 3100002 (Str ''board-2'')
     (Str (createToken sample_hmac sample_config 3100001 ''board-2'')) = Inr True"
proof -
  have sid: "body_sid sample_body = Some (units ''board-2'')" and ne: "units ''board-2'' \<noteq> []"
    by (simp_all add: sample_body_def units_def)
  show ?thesis
    using start_reuse [OF sid ne sample_server_board2, of sample_hmac "\<lambda>call. None" sample_env
        sample_config "[]" 3100000 3100001 False "''localhost:3001''"]
      verify_own_token [of "''board-2''" sample_hmac sample_config 3100002 3100001]
    by (simp add: start_respond_latin1 [OF latin1_units] start_json_def encode_token
        encode_sample_sid sample_config_def del: encodeURIComponent.simps)
qed

subsection \<open>Context relay: push\<close>

lemma push_reject:
  "\<not> isArray (field (Some body) ''docs'') \<Longrightarrow>
   context_push now embedId body st = (st, Status400 ''docs must be an array'')"
  by (auto simp: context_push_def split: option.splits json.splits)

lemma push_accept:
  "field (Some body) ''docs'' = Some (JArray ds) \<Longrightarrow>
   context_push now embedId body st =
     (st\<lparr>contextStore := (contextStore st)(embedId \<mapsto>
         \<lparr>docs = ds, viewport = viewportData (field (Some body) ''viewport''),
          updatedAt = now\<rparr>)\<rparr>,
      PushOk (length ds))"
  by (simp add: context_push_def)

lemma isArray_iff: "isArray v = (\<exists>ds. v = Some (JArray ds))"
  by (cases v rule: isArray.cases) auto

lemma isFinite_iff: "isFinite v = (\<exists>m e. v = Some (JNumber (Num m e)))"
  by (cases v rule: isFinite.cases) auto

lemma viewportData_Some:
  "viewportData v = Some vp \<longleftrightarrow>
     (\<exists>kvs. v = Some (JObject kvs) \<and> isFinite (map_of kvs ''x'') \<and> isFinite (map_of kvs ''y'')
        \<and> isFinite (map_of kvs ''width'') \<and> isFinite (map_of kvs ''height'')
        \<and> vp = \<lparr>vp_x = map_of kvs ''x'', vp_y = map_of kvs ''y'',
                  vp_width = map_of kvs ''width'', vp_height = map_of kvs ''height''\<rparr>)"
proof (cases v rule: typeof_object.cases)
  case (3 kvs)
  then show ?thesis by (auto simp: viewportData_def field_def)
qed (auto simp: viewportData_def field_def)

text \<open>
  C8. A push whose \<open>docs\<close> is not an array is answered with status 400 and leaves the store
  as it was. A push whose \<open>docs\<close> is an array overwrites the record of the embed id with those
  docs, the time of the call and the viewport, and reports how many docs there are. The stored
  viewport is the four fields \<open>x\<close>, \<open>y\<close>, \<open>width\<close>, \<open>height\<close> of the request's viewport
  exactly when that is an object whose four fields are all finite numbers, and \<open>null\<close> (here
  \<open>None\<close>) otherwise.
\<close>

theorem context_push_validation:
  "((\<forall>ds. field (Some body) ''docs'' \<noteq> Some (JArray ds)) \<longrightarrow>
      context_push now embedId body st = (st, Status400 ''docs must be an array''))
 \<and> (field (Some body) ''docs'' = Some (JArray ds) \<longrightarrow>
      context_push now embedId body st =
        (st\<lparr>contextStore := (contextStore st)(embedId \<mapsto>
            \<lparr>docs = ds, viewport = viewportData (field (Some body) ''viewport''),
             updatedAt = now\<rparr>)\<rparr>,
         PushOk (length ds)))
 \<and> (viewportData v = Some vp \<longleftrightarrow>
      (\<exists>kvs xm xe ym ye wm we hm he.
          v = Some (JObject kvs)
        \<and> map_of kvs ''x'' = Some (JNumber (Num xm xe))
        \<and> map_of kvs ''y'' = Some (JNumber (Num ym ye))
        \<and> map_of kvs ''width'' = Some (JNumber (Num wm we))
        \<and> map_of kvs ''height'' = Some (JNumber (Num hm he))
        \<and> vp = \<lparr>vp_x = Some (JNumber (Num xm xe)), vp_y = Some (JNumber (Num ym ye)),
                  vp_width = Some (JNumber (Num wm we)),
                  vp_height = Some (JNumber (Num hm he))\<rparr>))"
proof (intro conjI)
  show "(\<forall>ds. field (Some body) ''docs'' \<noteq> Some (JArray ds)) \<longrightarrow>
      context_push now embedId body st = (st, Status400 ''docs must be an array'')"
    using push_reject [of body now embedId st] by (simp add: isArray_iff)
  show "field (Some body) ''docs'' = Some (JArray ds) \<longrightarrow>
      context_push now embedId body st =
        (st\<lparr>contextStore := (contextStore st)(embedId \<mapsto>
            \<lparr>docs = ds, viewport = viewportData (field (Some body) ''viewport''),
             updatedAt = now\<rparr>)\<rparr>,
         PushOk (length ds))"
    using push_accept [of body ds now embedId st] by simp
  show "viewportData v = Some vp \<longleftrightarrow>
      (\<exists>kvs xm xe ym ye wm we hm he.
          v = Some (JObject kvs)
        \<and> map_of kvs ''x'' = Some (JNumber (Num xm xe))
        \<and> map_of kvs ''y'' = Some (JNumber (Num ym ye))
        \<and> map_of kvs ''width'' = Some (JNumber (Num wm we))
        \<and> map_of kvs ''height'' = Some (JNumber (Num hm he))
        \<and> vp = \<lparr>vp_x = Some (JNumber (Num xm xe)), vp_y = Some (JNumber (Num ym ye)),
                  vp_width = Some (JNumber (Num wm we)),
                  vp_height = Some (JNumber (Num hm he))\<rparr>)"
    unfolding viewportData_Some isFinite_iff by (rule iffI; clarsimp; blast?)
qed

theorem context_push_validation_witness:
  "context_push 1700000000000 ''e1'' (JObject [(''docs'', JString ''not-an-array'')]) empty_relay
     = (empty_relay, Status400 ''docs must be an array'')
 \<and> context_push 1700000000000 ''e1'' sample_push empty_relay
     = (empty_relay\<lparr>contextStore := (contextStore empty_relay)(''e1'' \<mapsto>
           \<lparr>docs = [], viewport = None, updatedAt = 1700000000000\<rparr>)\<rparr>,
        PushOk 0)"
proof -
  have bad: "\<forall>ds. field (Some (JObject [(''docs'', JString ''not-an-array'')])) ''docs''
               \<noteq> Some (JArray ds)"
    by (simp add: field_def)
  have good: "field (Some sample_push) ''docs'' = Some (JArray [])"
    by (simp add: field_def sample_push_def)
  have vp: "viewportData (field (Some sample_push) ''viewport'') = None"
    by (simp add: viewportData_def field_def sample_push_def)
  show ?thesis
    using context_push_validation [of "JObject [(''docs'', JString ''not-an-array'')]"
        1700000000000 "''e1''" empty_relay]
      context_push_validation [of sample_push 1700000000000 "''e1''" empty_relay "[]"]
      bad good vp
    by simp
qed

subsection \<open>Context relay: pending requests\<close>

lemma requests_loop_effect:
  "requests_loop now es ids pending =
     (ids @ map fst (filter (\<lambda>e. now - snd e < CONTEXT_REQUEST_TTL_MS) es),
      filter (\<lambda>p. fst p \<notin> fst ` {e \<in> set es. \<not> now - snd e < CONTEXT_REQUEST_TTL_MS})
        pending)"
proof (induction es arbitrary: ids pending)
  case Nil
  show ?case by simp
next
  case (Cons e es)
  obtain k at where e: "e = (k, at)" by (cases e)
  show ?case
  proof (cases "now - at < CONTEXT_REQUEST_TTL_MS")
    case True
    have "{e \<in> set ((k, at) # es). \<not> now - snd e < CONTEXT_REQUEST_TTL_MS}
          = {e \<in> set es. \<not> now - snd e < CONTEXT_REQUEST_TTL_MS}"
      using True by auto
    then show ?thesis using True by (simp add: e Cons.IH)
  next
    case False
    have "{e \<in> set ((k, at) # es). \<not> now - snd e < CONTEXT_REQUEST_TTL_MS}
          = insert (k, at) {e \<in> set es. \<not> now - snd e < CONTEXT_REQUEST_TTL_MS}"
      using False by auto
    then show ?thesis using False by (simp add: e Cons.IH delete_filter conj_commute)
  qed
qed

lemma context_requests_effect:
  assumes "distinct (map fst (contextRequestTimes st))"
  shows "context_requests now st =
     (st\<lparr>contextRequestTimes :=
          filter (\<lambda>p. now - snd p < CONTEXT_REQUEST_TTL_MS) (contextRequestTimes st)\<rparr>,
      EmbedIds (map fst (filter (\<lambda>p. now - snd p < CONTEXT_REQUEST_TTL_MS)
                           (contextRequestTimes st))))"
  using distinct_keys_filter [OF assms, of "\<lambda>at. \<not> now - at < CONTEXT_REQUEST_TTL_MS"]
  by (simp add: context_requests_def requests_loop_effect)

lemma distinct_context_request:
  "distinct (map fst (contextRequestTimes st)) \<Longrightarrow>
   distinct (map fst (contextRequestTimes (fst (context_request now embedId st))))"
  by (simp add: context_request_def distinct_update)

lemma fresh_keys:
  assumes "distinct (map fst m)"
  shows "set (map fst (filter (\<lambda>p. P (snd p)) m)) = {k. \<exists>v. map_of m k = Some v \<and> P v}"
proof -
  have "\<And>k v. ((k, v) \<in> set m) = (map_of m k = Some v)"
    using assms by (simp add: map_of_eq_Some_iff)
  then show ?thesis by (auto simp: image_iff)
qed

text \<open>
  C9. On a map with distinct keys (a JavaScript \<open>Map\<close>), a read at time \<open>now\<close> returns each
  embed id at most once, and exactly the ids whose recorded time is less than 30 seconds before
  \<open>now\<close>. It deletes every entry it finds expired and keeps every other entry as it was, so
  no entry that is expired at \<open>now\<close> is left. A second read at the same time therefore purges
  nothing and returns the same ids, and a read at any later time returns only ids the first read
  returned: it never meets an entry that the first read found expired.
\<close>

theorem pending_requests_ttl:
  assumes "distinct (map fst (contextRequestTimes st))"
  shows "\<exists>ids. snd (context_requests now st) = EmbedIds ids
     \<and> distinct ids
     \<and> set ids = {k. \<exists>at. map_of (contextRequestTimes st) k = Some at
                         \<and> now - at < CONTEXT_REQUEST_TTL_MS}
     \<and> (\<forall>k at. map_of (contextRequestTimes st) k = Some at \<longrightarrow>
           map_of (contextRequestTimes (fst (context_requests now st))) k
             = (if now - at < CONTEXT_REQUEST_TTL_MS then Some at else None))
     \<and> (\<forall>k. map_of (contextRequestTimes st) k = None \<longrightarrow>
           map_of (contextRequestTimes (fst (context_requests now st))) k = None)
     \<and> (\<forall>k at. map_of (contextRequestTimes (fst (context_requests now st))) k = Some at \<longrightarrow>
           now - at < CONTEXT_REQUEST_TTL_MS)
     \<and> context_requests now (fst (context_requests now st))
         = (fst (context_requests now st), EmbedIds ids)
     \<and> (\<forall>later. \<exists>ids'. snd (context_requests later (fst (context_requests now st)))
                          = EmbedIds ids' \<and> set ids' \<subseteq> set ids)
     \<and> contextStore (fst (context_requests now st)) = contextStore st"
proof -
  let ?m = "contextRequestTimes st"
  let ?f = "filter (\<lambda>p. now - snd p < CONTEXT_REQUEST_TTL_MS) ?m"
  let ?st' = "fst (context_requests now st)"
  have eff: "context_requests now st = (st\<lparr>contextRequestTimes := ?f\<rparr>, EmbedIds (map fst ?f))"
    using assms by (rule context_requests_effect)
  have pending: "contextRequestTimes ?st' = ?f"
    by (simp add: eff)
  have answer: "snd (context_requests now st) = EmbedIds (map fst ?f)"
    by (simp add: eff)
  have d': "distinct (map fst ?f)"
    using assms by (rule distinct_map_filter)
  have d'': "distinct (map fst (contextRequestTimes ?st'))"
    using d' by (simp only: pending)
  have keys: "set (map fst ?f)
      = {k. \<exists>at. map_of ?m k = Some at \<and> now - at < CONTEXT_REQUEST_TTL_MS}"
    using fresh_keys [OF assms, of "\<lambda>at. now - at < CONTEXT_REQUEST_TTL_MS"] .
  have kept: "\<forall>k at. map_of ?m k = Some at \<longrightarrow>
      map_of (contextRequestTimes ?st') k
        = (if now - at < CONTEXT_REQUEST_TTL_MS then Some at else None)"
    unfolding pending
  proof (intro allI impI)
    fix k at
    assume "map_of ?m k = Some at"
    from map_of_filter_distinct [OF assms this, of "\<lambda>at. now - at < CONTEXT_REQUEST_TTL_MS"]
    show "map_of ?f k = (if now - at < CONTEXT_REQUEST_TTL_MS then Some at else None)" .
  qed
  have absent: "\<forall>k. map_of ?m k = None \<longrightarrow> map_of (contextRequestTimes ?st') k = None"
    unfolding pending by (simp add: map_of_filter_absent)
  have left: "\<forall>k at. map_of (contextRequestTimes ?st') k = Some at \<longrightarrow>
      now - at < CONTEXT_REQUEST_TTL_MS"
    unfolding pending by (auto dest: map_of_SomeD)
  have again: "context_requests now ?st' = (?st', EmbedIds (map fst ?f))"
    using context_requests_effect [OF d'', of now] by (simp add: eff)
  have later: "\<forall>later. \<exists>ids'. snd (context_requests later ?st') = EmbedIds ids'
      \<and> set ids' \<subseteq> set (map fst ?f)"
  proof
    fix later
    have "snd (context_requests later ?st')
            = EmbedIds (map fst (filter (\<lambda>p. later - snd p < CONTEXT_REQUEST_TTL_MS) ?f))"
      using context_requests_effect [OF d'', of later] by (simp add: pending)
    moreover have "set (map fst (filter (\<lambda>p. later - snd p < CONTEXT_REQUEST_TTL_MS) ?f))
            \<subseteq> set (map fst ?f)"
      by auto
    ultimately show "\<exists>ids'. snd (context_requests later ?st') = EmbedIds ids'
        \<and> set ids' \<subseteq> set (map fst ?f)"
      by blast
  qed
  have store: "contextStore ?st' = contextStore st"
    by (simp add: eff)
  show ?thesis
    by (intro exI [of _ "map fst ?f"] conjI)
      (fact answer d' keys kept absent left again later store)+
qed

theorem pending_requests_ttl_witness:
  "context_requests 31001 sample_relay
     = (sample_relay\<lparr>contextRequestTimes := [(''e2'', 30000)]\<rparr>, EmbedIds [''e2''])
 \<and> (\<exists>ids. snd (context_requests 31001 sample_relay) = EmbedIds ids
       \<and> map_of (contextRequestTimes (fst (context_requests 31001 sample_relay))) ''e1'' = None
       \<and> context_requests 31001 (fst (context_requests 31001 sample_relay))
           = (fst (context_requests 31001 sample_relay), EmbedIds ids))"
proof -
  have d: "distinct (map fst (contextRequestTimes sample_relay))"
    by (simp add: sample_relay_def)
  have e1: "map_of (contextRequestTimes sample_relay) ''e1'' = Some 1000"
    by (simp add: sample_relay_def)
  have run: "context_requests 31001 sample_relay
     = (sample_relay\<lparr>contextRequestTimes := [(''e2'', 30000)]\<rparr>, EmbedIds [''e2''])"
    by (simp add: context_requests_def sample_relay_def CONTEXT_REQUEST_TTL_MS_def)
  obtain ids where ids: "snd (context_requests 31001 sample_relay) = EmbedIds ids"
    and gone: "\<forall>k at. map_of (contextRequestTimes sample_relay) k = Some at \<longrightarrow>
           map_of (contextRequestTimes (fst (context_requests 31001 sample_relay))) k
             = (if 31001 - at < CONTEXT_REQUEST_TTL_MS then Some at else None)"
    and again: "context_requests 31001 (fst (context_requests 31001 sample_relay))
           = (fst (context_requests 31001 sample_relay), EmbedIds ids)"
    using pending_requests_ttl [OF d, of 31001] by blast
  have "map_of (contextRequestTimes (fst (context_requests 31001 sample_relay))) ''e1'' = None"
    using gone e1 by (simp add: CONTEXT_REQUEST_TTL_MS_def)
  with run ids again show ?thesis by blast
qed

subsection \<open>Routing: the embed id \<open>requests\<close>\<close>

lemma route_post_requests:
  "route POST ''/api/context/requests'' = Matched ContextPush [''requests'']"
  by (simp add: route_def path_segments_def routes_def lower_def)

lemma route_get_requests: "route GET ''/api/context/requests'' = Matched ContextRequests []"
  by (simp add: route_def path_segments_def routes_def lower_def)

lemma route_get_escaped:
  "route GET ''/api/context/%72equests'' = Matched ContextGet [''requests'']"
  by (simp add: route_def path_segments_def routes_def lower_def hex_value_def char_of_eq_iff)

lemma route_loop_get_context:
  assumes "route_loop routes GET segs = Matched ContextGet ps"
  shows "\<exists>a b s e. segs = [a, b, s] \<and> map lower a = ''api'' \<and> map lower b = ''context''
           \<and> s \<noteq> [] \<and> map lower s \<noteq> ''requests'' \<and> decodeURIComponent s = Decoded e
           \<and> ps = [e]"
proof (cases segs)
  case Nil
  with assms show ?thesis by (simp add: routes_def)
next
  case (Cons a r1)
  note s1 = this
  show ?thesis
  proof (cases r1)
    case Nil
    with assms s1 show ?thesis by (simp add: routes_def split: if_splits)
  next
    case (Cons b r2)
    note s2 = this
    show ?thesis
    proof (cases r2)
      case Nil
      with assms s1 s2 show ?thesis by (simp add: routes_def split: if_splits)
    next
      case (Cons s r3)
      note s3 = this
      show ?thesis
      proof (cases r3)
        case Nil
        with assms s1 s2 s3 show ?thesis
          by (simp add: routes_def split: if_splits decoded.splits)
      next
        case (Cons d r4)
        with assms s1 s2 s3 show ?thesis
          by (cases r4) (simp_all add: routes_def split: if_splits decoded.splits params.splits)
      qed
    qed
  qed
qed

lemma route_get_context:
  assumes "route GET path = Matched ContextGet ps"
  shows "\<exists>a b s e. path_segments path = Some [a, b, s] \<and> map lower a = ''api''
           \<and> map lower b = ''context'' \<and> s \<noteq> [] \<and> map lower s \<noteq> ''requests''
           \<and> decodeURIComponent s = Decoded e \<and> ps = [e]"
proof (cases "path_segments path")
  case None
  with assms show ?thesis by (simp add: route_def)
next
  case (Some segs)
  with assms have "route_loop routes GET segs = Matched ContextGet ps"
    by (simp add: route_def)
  from route_loop_get_context [OF this] Some show ?thesis by simp
qed

text \<open>
  C10, as the code and the router have it. A POST to \<open>/api/context/requests\<close> reaches the push
  route with the embed id \<open>requests\<close>, and a valid push is stored under that key. A GET to
  \<open>/api/context/requests\<close> reaches the pending-request route and answers with embed ids, not
  with the stored record. The record can still be read: the read route answers with the record
  of \<open>requests\<close> exactly for the paths whose last segment is not the word \<open>requests\<close> itself
  (in any letter case) but decodes to it.
\<close>

theorem requests_id_shadowed_on_literal_path:
  "route POST ''/api/context/requests'' = Matched ContextPush [''requests'']
 \<and> (field (Some body) ''docs'' = Some (JArray ds) \<longrightarrow>
       contextStore (fst (context_api now POST ''/api/context/requests'' body st)) ''requests''
         = Some \<lparr>docs = ds, viewport = viewportData (field (Some body) ''viewport''),
                 updatedAt = now\<rparr>)
 \<and> route GET ''/api/context/requests'' = Matched ContextRequests []
 \<and> context_api later GET ''/api/context/requests'' any_body st' = context_requests later st'
 \<and> (\<exists>ids. snd (context_api later GET ''/api/context/requests'' any_body st') = EmbedIds ids)
 \<and> (route GET path = Matched ContextGet [''requests''] \<longrightarrow>
       (\<exists>a b s. path_segments path = Some [a, b, s] \<and> map lower s \<noteq> ''requests''
                \<and> decodeURIComponent s = Decoded ''requests''))"
proof (intro conjI)
  show "route POST ''/api/context/requests'' = Matched ContextPush [''requests'']"
    by (rule route_post_requests)
  show "field (Some body) ''docs'' = Some (JArray ds) \<longrightarrow>
       contextStore (fst (context_api now POST ''/api/context/requests'' body st)) ''requests''
         = Some \<lparr>docs = ds, viewport = viewportData (field (Some body) ''viewport''),
                 updatedAt = now\<rparr>"
    by (simp add: context_api_def route_post_requests push_accept)
  show "route GET ''/api/context/requests'' = Matched ContextRequests []"
    by (rule route_get_requests)
  show "context_api later GET ''/api/context/requests'' any_body st' = context_requests later st'"
    by (simp add: context_api_def route_get_requests)
  show "\<exists>ids. snd (context_api later GET ''/api/context/requests'' any_body st') = EmbedIds ids"
    by (simp add: context_api_def route_get_requests context_requests_def split: prod.splits)
  show "route GET path = Matched ContextGet [''requests''] \<longrightarrow>
       (\<exists>a b s. path_segments path = Some [a, b, s] \<and> map lower s \<noteq> ''requests''
                \<and> decodeURIComponent s = Decoded ''requests'')"
  proof
    assume "route GET path = Matched ContextGet [''requests'']"
    from route_get_context [OF this]
    show "\<exists>a b s. path_segments path = Some [a, b, s] \<and> map lower s \<noteq> ''requests''
                \<and> decodeURIComponent s = Decoded ''requests''"
      by auto
  qed
qed

theorem requests_id_shadowed_on_literal_path_witness:
  "contextStore (fst (context_api 1000 POST ''/api/context/requests'' sample_docs empty_relay))
     ''requests'' = Some \<lparr>docs = [JString ''doc-1''], viewport = None, updatedAt = 1000\<rparr>
 \<and> snd (context_api 2000 GET ''/api/context/requests'' (JObject [])
       (fst (context_api 1000 POST ''/api/context/requests'' sample_docs empty_relay)))
     = EmbedIds []
 \<and> path_segments ''/api/context/%72equests'' = Some [''api'', ''context'', ''%72equests'']
 \<and> decodeURIComponent ''%72equests'' = Decoded ''requests''"
proof -
  have docs: "field (Some sample_docs) ''docs'' = Some (JArray [JString ''doc-1''])"
    by (simp add: sample_docs_def field_def)
  have vp: "viewportData (field (Some sample_docs) ''viewport'') = None"
    by (simp add: sample_docs_def field_def viewportData_def)
  note inst = requests_id_shadowed_on_literal_path [of sample_docs "[JString ''doc-1'']"
      1000 empty_relay 2000 "JObject []"
      "fst (context_api 1000 POST ''/api/context/requests'' sample_docs empty_relay)"
      "''/api/context/%72equests''"]
  have stored: "contextStore
      (fst (context_api 1000 POST ''/api/context/requests'' sample_docs empty_relay))
     ''requests'' = Some \<lparr>docs = [JString ''doc-1''], viewport = None, updatedAt = 1000\<rparr>"
    using inst docs vp by simp
  have times: "contextRequestTimes
      (fst (context_api 1000 POST ''/api/context/requests'' sample_docs empty_relay)) = []"
    by (simp add: context_api_def route_post_requests push_accept [OF docs] empty_relay_def)
  have listed: "snd (context_api 2000 GET ''/api/context/requests'' (JObject [])
       (fst (context_api 1000 POST ''/api/context/requests'' sample_docs empty_relay)))
     = EmbedIds []"
    using inst [THEN conjunct2, THEN conjunct2, THEN conjunct2, THEN conjunct1]
    by (simp add: context_requests_def times)
  have segs: "path_segments ''/api/context/%72equests'' = Some [''api'', ''context'', ''%72equests'']"
    by (simp add: path_segments_def)
  have dec: "decodeURIComponent ''%72equests'' = Decoded ''requests''"
    by (simp add: hex_value_def char_of_eq_iff)
  from stored listed segs dec show ?thesis by simp
qed

text \<open>
  The claim as stated fails on the word never: after the push to \<open>/api/context/requests\<close>, a
  GET to \<open>/api/context/%72equests\<close> (\<open>%72\<close> is \<open>r\<close>) is routed to the read route with the
  embed id \<open>requests\<close> and answers with the stored record.
\<close>

theorem requests_record_read_back:
  "context_api 2000 GET ''/api/context/%72equests'' (JObject [])
     (fst (context_api 1000 POST ''/api/context/requests'' sample_docs empty_relay))
   = (fst (context_api 1000 POST ''/api/context/requests'' sample_docs empty_relay),
      ContextJson [JString ''doc-1''] None (Some 1000))"
proof -
  have docs: "field (Some sample_docs) ''docs'' = Some (JArray [JString ''doc-1''])"
    by (simp add: sample_docs_def field_def)
  have vp: "viewportData (field (Some sample_docs) ''viewport'') = None"
    by (simp add: sample_docs_def field_def viewportData_def)
  have stored: "contextStore
      (fst (context_api 1000 POST ''/api/context/requests'' sample_docs empty_relay))
     ''requests'' = Some \<lparr>docs = [JString ''doc-1''], viewport = None, updatedAt = 1000\<rparr>"
    by (simp add: context_api_def route_post_requests push_accept [OF docs] vp)
  show ?thesis
    by (simp add: context_api_def [of 2000] route_get_escaped context_get_def stored)
qed


end
